theory Spec2Isabelle
  imports Main
begin

section \<open>The DOM tree the worker operates on\<close>

text \<open>
  \<^verbatim>\<open>XMLWorker\<close> keeps a \<^verbatim>\<open>QDomDocument\<close> and reads and changes it through
  \<^verbatim>\<open>QDomElement\<close> handles. The tree is modelled as a datatype. Only the node kinds that the
  worker can tell apart are kept: elements (tag name, attributes, children), text nodes and
  CDATA sections (both contribute to \<^verbatim>\<open>QDomElement::text()\<close>), and every other kind of leaf
  (comments, processing instructions), which the worker skips.

  A handle to a node inside a tree is the path of child indexes leading to it. A
  \<^verbatim>\<open>QDomNodeList\<close> is the list of the paths of its members, relative to the element the
  list was asked from. A null node or null element is \<open>None\<close>.
\<close>

type_synonym path = "nat list"

datatype node =
    Element string "(string \<times> string) list" "node list"
  | Text string
  | CDATASection string
  | Comment string

text \<open>The node a path leads to; \<open>None\<close> when the path leaves the tree.\<close>

fun node_at :: "node \<Rightarrow> path \<Rightarrow> node option" where
  "node_at n [] = Some n"
| "node_at (Element t a cs) (i # p) = (if i < length cs then node_at (cs ! i) p else None)"
| "node_at (Text v) (i # p) = None"
| "node_at (CDATASection v) (i # p) = None"
| "node_at (Comment v) (i # p) = None"

text \<open>Following a handle from an element that may be null.\<close>

definition deref :: "node option \<Rightarrow> path \<Rightarrow> node option" where
  "deref e p = (case e of None \<Rightarrow> None | Some n \<Rightarrow> node_at n p)"

text \<open>\<^verbatim>\<open>QDomNodeList::at(i)\<close> for a list asked from \<open>owner\<close>: the member, or a null node when
  \<open>i\<close> is out of range.\<close>

definition nodeList_at :: "node option \<Rightarrow> path list \<Rightarrow> nat \<Rightarrow> node option" where
  "nodeList_at owner nodes i = (if i < length nodes then deref owner (nodes ! i) else None)"

text \<open>\<^verbatim>\<open>QDomNode::toElement()\<close>: the node itself when it is an element, a null element otherwise.\<close>

definition toElement :: "node option \<Rightarrow> node option" where
  "toElement e = (case e of Some (Element t a cs) \<Rightarrow> Some (Element t a cs) | _ \<Rightarrow> None)"

text \<open>\<^verbatim>\<open>QDomElement::attribute(name)\<close>: the value, or the empty string when the attribute is
  absent or the element is null.\<close>

definition attribute :: "node option \<Rightarrow> string \<Rightarrow> string" where
  "attribute e name =
     (case e of
        Some (Element t a cs) \<Rightarrow> (case map_of a name of Some v \<Rightarrow> v | None \<Rightarrow> [])
      | _ \<Rightarrow> [])"

text \<open>\<^verbatim>\<open>QDomElement::text()\<close>: the text and CDATA content of the element's subtree, in
  document order.\<close>

fun children_text :: "node list \<Rightarrow> string" where
  "children_text [] = []"
| "children_text (Element t a cs # ns) = children_text cs @ children_text ns"
| "children_text (Text v # ns) = v @ children_text ns"
| "children_text (CDATASection v # ns) = v @ children_text ns"
| "children_text (Comment v # ns) = children_text ns"

definition text_of :: "node option \<Rightarrow> string" where
  "text_of e = (case e of Some (Element t a cs) \<Rightarrow> children_text cs | _ \<Rightarrow> [])"

text \<open>
  \<^verbatim>\<open>QDomElement::elementsByTagName(tagname)\<close> lists all descendant elements with
  the given tag name, in preorder, not only the children, and never the element itself.
  \<open>createList tagname i ns\<close> walks the siblings \<open>ns\<close>, the first of which has child index \<open>i\<close>.
\<close>

fun createList :: "string \<Rightarrow> nat \<Rightarrow> node list \<Rightarrow> path list" where
  "createList tagname i [] = []"
| "createList tagname i (Element t a cs # ns) =
     (if t = tagname then [[i]] else []) @ map ((#) i) (createList tagname 0 cs)
       @ createList tagname (Suc i) ns"
| "createList tagname i (Text v # ns) = createList tagname (Suc i) ns"
| "createList tagname i (CDATASection v # ns) = createList tagname (Suc i) ns"
| "createList tagname i (Comment v # ns) = createList tagname (Suc i) ns"

definition elementsByTagName :: "node option \<Rightarrow> string \<Rightarrow> path list" where
  "elementsByTagName e tagname =
     (case e of Some (Element t a cs) \<Rightarrow> createList tagname 0 cs | _ \<Rightarrow> [])"

text \<open>Changing the child list of the element a path leads to; the rest of the tree stays.\<close>

fun update_children :: "path \<Rightarrow> (node list \<Rightarrow> node list) \<Rightarrow> node \<Rightarrow> node" where
  "update_children [] h (Element t a cs) = Element t a (h cs)"
| "update_children (i # p) h (Element t a cs) =
     (if i < length cs then Element t a (cs[i := update_children p h (cs ! i)])
      else Element t a cs)"
| "update_children p h (Text v) = Text v"
| "update_children p h (CDATASection v) = CDATASection v"
| "update_children p h (Comment v) = Comment v"

text \<open>\<^verbatim>\<open>parent.appendChild(newChild)\<close> for a freshly created \<open>newChild\<close>.\<close>

definition appendChild :: "node option \<Rightarrow> path \<Rightarrow> node \<Rightarrow> node option" where
  "appendChild doc parent newChild =
     map_option (update_children parent (\<lambda>cs. cs @ [newChild])) doc"

text \<open>
  \<^verbatim>\<open>parent.removeChild(oldChild)\<close>, with \<open>oldChild\<close> given by its path relative to \<open>parent\<close>.
  Qt removes \<open>oldChild\<close> only when it is a direct child of \<open>parent\<close>; for any other node the
  call returns a null node and changes nothing.
\<close>

definition removeChild :: "node option \<Rightarrow> path \<Rightarrow> path \<Rightarrow> node option" where
  "removeChild doc parent oldChild =
     (case oldChild of
        [i] \<Rightarrow> map_option (update_children parent (\<lambda>cs. take i cs @ drop (Suc i) cs)) doc
      | _ \<Rightarrow> doc)"

text \<open>\<^verbatim>\<open>QDomDocument::createElement\<close>, \<^verbatim>\<open>QDomElement::setAttribute\<close> and
  \<^verbatim>\<open>QDomElement::tagName\<close>.\<close>

definition createElement :: "string \<Rightarrow> node" where
  "createElement tagname = Element tagname [] []"

fun setAttribute :: "node \<Rightarrow> string \<Rightarrow> string \<Rightarrow> node" where
  "setAttribute (Element t a cs) name v = Element t ((name, v) # filter (\<lambda>kv. fst kv \<noteq> name) a) cs"
| "setAttribute (Text x) name v = Text x"
| "setAttribute (CDATASection x) name v = CDATASection x"
| "setAttribute (Comment x) name v = Comment x"

definition tagName :: "node option \<Rightarrow> string" where
  "tagName e = (case e of Some (Element t a cs) \<Rightarrow> t | _ \<Rightarrow> [])"

section \<open>The worker\<close>

definition TABLE_ELEMENT_NAME :: string where "TABLE_ELEMENT_NAME = ''table''"
definition ROW_ELEMENT_NAME :: string where "ROW_ELEMENT_NAME = ''row''"
definition CELL_ELEMENT_NAME :: string where "CELL_ELEMENT_NAME = ''cell''"

text \<open>The members of \<^verbatim>\<open>XMLWorker\<close>. \<open>XmlDocument\<close> is the document element of the
  \<^verbatim>\<open>QDomDocument\<close>, \<open>None\<close> when the document has none.\<close>

record XMLWorker =
  CurrentFilePath :: string
  XmlDocument :: "node option"
  AvailableTableNames :: "string list"
  FileLoaded :: bool

text \<open>The worker as its constructor leaves it.\<close>

definition XMLWorker_new :: XMLWorker where
  "XMLWorker_new =
     \<lparr>CurrentFilePath = [], XmlDocument = None, AvailableTableNames = [], FileLoaded = False\<rparr>"

subsection \<open>Decimal numbers, as \<^verbatim>\<open>QString::arg(int)\<close> prints them\<close>

definition digit :: "nat \<Rightarrow> char" where
  "digit d = ''0123456789'' ! d"

function number :: "nat \<Rightarrow> string" where
  "number n = (if n < 10 then [digit n] else number (n div 10) @ [digit (n mod 10)])"
  by pat_completeness auto
termination
  by (relation "measure (\<lambda>n. n)") auto

declare number.simps [simp del]

subsection \<open>Reading a table\<close>

text \<open>The loop of \<^verbatim>\<open>ExtractColumnHeaders\<close> over the cells of the first row.\<close>

function ExtractColumnHeaders_cells ::
  "node option \<Rightarrow> path list \<Rightarrow> nat \<Rightarrow> string list \<Rightarrow> string list" where
  "ExtractColumnHeaders_cells firstRow cellNodes i headers =
     (if i < length cellNodes then
        let cellElement = toElement (nodeList_at firstRow cellNodes i);
            columnName = attribute cellElement ''name''
        in ExtractColumnHeaders_cells firstRow cellNodes (Suc i)
             (headers @ [if columnName = [] then ''Column_'' @ number (i + 1) else columnName])
      else headers)"
  by pat_completeness auto
termination
  by (relation "measure (\<lambda>(firstRow, cellNodes, i, headers). length cellNodes - i)") auto

declare ExtractColumnHeaders_cells.simps [simp del]

definition ExtractColumnHeaders :: "node option \<Rightarrow> string list" where
  "ExtractColumnHeaders tableElement =
     (let rowNodes = elementsByTagName tableElement ROW_ELEMENT_NAME
      in if length rowNodes > 0 then
           let firstRow = toElement (nodeList_at tableElement rowNodes 0);
               cellNodes = elementsByTagName firstRow CELL_ELEMENT_NAME
           in ExtractColumnHeaders_cells firstRow cellNodes 0 []
         else [])"

text \<open>The two nested loops of \<^verbatim>\<open>ExtractTableRows\<close>. The class declaration gives the result
  type as \<^verbatim>\<open>QMap<int, QStringList>\<close>; the definition and its caller use
  \<^verbatim>\<open>QList<QStringList>\<close>, which is what is modelled.\<close>

function ExtractTableRows_cells ::
  "node option \<Rightarrow> path list \<Rightarrow> nat \<Rightarrow> string list \<Rightarrow> string list" where
  "ExtractTableRows_cells rowElement cellNodes j rowData =
     (if j < length cellNodes then
        let cellElement = toElement (nodeList_at rowElement cellNodes j)
        in ExtractTableRows_cells rowElement cellNodes (Suc j) (rowData @ [text_of cellElement])
      else rowData)"
  by pat_completeness auto
termination
  by (relation "measure (\<lambda>(rowElement, cellNodes, j, rowData). length cellNodes - j)") auto

declare ExtractTableRows_cells.simps [simp del]

function ExtractTableRows_rows ::
  "node option \<Rightarrow> path list \<Rightarrow> nat \<Rightarrow> string list list \<Rightarrow> string list list" where
  "ExtractTableRows_rows tableElement rowNodes i rows =
     (if i < length rowNodes then
        let rowElement = toElement (nodeList_at tableElement rowNodes i);
            cellNodes = elementsByTagName rowElement CELL_ELEMENT_NAME;
            rowData = ExtractTableRows_cells rowElement cellNodes 0 []
        in ExtractTableRows_rows tableElement rowNodes (Suc i) (rows @ [rowData])
      else rows)"
  by pat_completeness auto
termination
  by (relation "measure (\<lambda>(tableElement, rowNodes, i, rows). length rowNodes - i)") auto

declare ExtractTableRows_rows.simps [simp del]

definition ExtractTableRows :: "node option \<Rightarrow> string list list" where
  "ExtractTableRows tableElement =
     ExtractTableRows_rows tableElement (elementsByTagName tableElement ROW_ELEMENT_NAME) 0 []"

subsection \<open>Finding a table by name\<close>

text \<open>The search loop of \<^verbatim>\<open>FindTableElement\<close>; the result is the handle of the table, relative
  to the document element, or \<open>None\<close> for the null element.\<close>

function FindTableElement_loop ::
  "node option \<Rightarrow> path list \<Rightarrow> string \<Rightarrow> nat \<Rightarrow> path option" where
  "FindTableElement_loop rootElement tableNodes tableName i =
     (if i < length tableNodes then
        let tableElement = toElement (nodeList_at rootElement tableNodes i)
        in if attribute tableElement ''name'' = tableName then Some (tableNodes ! i)
           else FindTableElement_loop rootElement tableNodes tableName (Suc i)
      else None)"
  by pat_completeness auto
termination
  by (relation "measure (\<lambda>(rootElement, tableNodes, tableName, i). length tableNodes - i)") auto

declare FindTableElement_loop.simps [simp del]

definition FindTableElement :: "XMLWorker \<Rightarrow> string \<Rightarrow> path option" where
  "FindTableElement s tableName =
     (let rootElement = XmlDocument s;
          tableNodes = elementsByTagName rootElement TABLE_ELEMENT_NAME
      in FindTableElement_loop rootElement tableNodes tableName 0)"

subsection \<open>Opening a file\<close>

text \<open>
  A line of \<^verbatim>\<open>qDebug()\<close> output is the list of the items streamed into it. The trace is
  modelled for \<^verbatim>\<open>LoadXMLFile\<close> and the two functions it calls, because that is where the
  diagnostics of the XML parser end up; the traces of the other operations influence neither
  the state nor the return values and are left out.
\<close>

datatype debug_item =
    Literal string
  | QStringItem string
  | Number int
  | QStringListItem "string list"

type_synonym debug_line = "debug_item list"

function ParseXMLStructure_loop ::
  "node option \<Rightarrow> path list \<Rightarrow> nat \<Rightarrow> string list \<Rightarrow> string list" where
  "ParseXMLStructure_loop rootElement tableNodes i names =
     (if i < length tableNodes then
        let tableElement = toElement (nodeList_at rootElement tableNodes i)
        in if tableElement \<noteq> None then
             let tableName = attribute tableElement ''name''
             in if tableName \<noteq> [] then
                  ParseXMLStructure_loop rootElement tableNodes (Suc i) (names @ [tableName])
                else ParseXMLStructure_loop rootElement tableNodes (Suc i) names
           else ParseXMLStructure_loop rootElement tableNodes (Suc i) names
      else names)"
  by pat_completeness auto
termination
  by (relation "measure (\<lambda>(rootElement, tableNodes, i, names). length tableNodes - i)") auto

declare ParseXMLStructure_loop.simps [simp del]

definition ParseXMLStructure :: "XMLWorker \<Rightarrow> XMLWorker \<times> debug_line list" where
  "ParseXMLStructure s =
     (let rootElement = XmlDocument s;
          tableNodes = elementsByTagName rootElement TABLE_ELEMENT_NAME;
          names = ParseXMLStructure_loop rootElement tableNodes 0 []
      in (s\<lparr>AvailableTableNames := names\<rparr>,
          [[Literal ''Parsed XML structure, found tables:'', QStringListItem names]]))"

definition ValidateXMLStructure :: "XMLWorker \<Rightarrow> bool \<times> debug_line list" where
  "ValidateXMLStructure s =
     (let rootElement = XmlDocument s
      in if rootElement = None then (False, [[Literal ''Error: No root element found'']])
         else
           let tableNodes = elementsByTagName rootElement TABLE_ELEMENT_NAME
           in (True,
               [[Literal ''Root element:'', QStringItem (tagName rootElement)]]
               @ (if length tableNodes = 0 then [[Literal ''Warning: No table elements found'']]
                  else [])
               @ [[Literal ''XML structure validation passed'']]))"

text \<open>
  The two things \<^verbatim>\<open>LoadXMLFile\<close> takes from outside the repository are parameters:
  \<open>files\<close>, the readable files (\<open>None\<close> when \<^verbatim>\<open>QFile::open\<close> fails) with their content,
  and \<open>setContent\<close>, the XML parser behind \<^verbatim>\<open>QDomDocument::setContent\<close>.
  \<^verbatim>\<open>XmlDocument.setContent(...)\<close> is called on the worker's own document: Qt empties the
  document before it parses, so after a failed call the document holds what the parser had
  built when it stopped (\<open>ParseFailed\<close> carries it, with the message, line and column that
  Qt stores through the three out-parameters), and never the previous tree for its own sake.
\<close>

datatype parse_result =
    Parsed "node option"
  | ParseFailed string int int "node option"

definition LoadXMLFile ::
  "(string \<Rightarrow> parse_result) \<Rightarrow> (string \<Rightarrow> string option) \<Rightarrow> string \<Rightarrow> XMLWorker
     \<Rightarrow> bool \<times> XMLWorker \<times> debug_line list" where
  "LoadXMLFile setContent files filePath s =
     (if filePath = [] then (False, s, [[Literal ''Error: Empty file path provided'']])
      else
        case files filePath of
          None \<Rightarrow> (False, s, [[Literal ''Error: Cannot open file'', QStringItem filePath]])
        | Some xml \<Rightarrow>
            (case setContent xml of
               ParseFailed errorMessage errorLine errorColumn remains \<Rightarrow>
                 (False, s\<lparr>XmlDocument := remains\<rparr>,
                  [[Literal ''Error: XML parsing failed at line'', Number errorLine,
                    Literal ''column'', Number errorColumn, Literal '':'',
                    QStringItem errorMessage]])
             | Parsed d \<Rightarrow>
                 let s1 = s\<lparr>XmlDocument := d\<rparr>;
                     v = ValidateXMLStructure s1
                 in if \<not> fst v then
                      (False, s1, snd v @ [[Literal ''Error: Invalid XML structure'']])
                    else
                      let s2 = s1\<lparr>CurrentFilePath := filePath\<rparr>;
                          p = ParseXMLStructure s2;
                          s3 = (fst p)\<lparr>FileLoaded := True\<rparr>
                      in (True, s3,
                          snd v @ snd p
                          @ [[Literal ''Successfully loaded XML file:'', QStringItem filePath],
                             [Literal ''Found'',
                              Number (int (length (AvailableTableNames s3))),
                              Literal ''tables'']])))"

subsection \<open>The grid\<close>

text \<open>
  What the worker uses of a \<^verbatim>\<open>QTableWidget\<close>: its dimensions, the text of its header items
  and of its cell items (\<open>None\<close> where there is no item). A \<^verbatim>\<open>QTableWidget *\<close> that may be
  null is a \<open>QTableWidget option\<close>.
\<close>

record QTableWidget =
  columnCount :: nat
  rowCount :: nat
  horizontalHeaderItem :: "nat \<Rightarrow> string option"
  item :: "nat \<Rightarrow> nat \<Rightarrow> string option"

definition clear :: "QTableWidget \<Rightarrow> QTableWidget" where
  "clear w = w\<lparr>horizontalHeaderItem := (\<lambda>c. None), item := (\<lambda>r c. None)\<rparr>"

definition setColumnCount :: "QTableWidget \<Rightarrow> nat \<Rightarrow> QTableWidget" where
  "setColumnCount w n =
     w\<lparr>columnCount := n,
       horizontalHeaderItem := (\<lambda>c. if c < n then horizontalHeaderItem w c else None),
       item := (\<lambda>r c. if c < n then item w r c else None)\<rparr>"

definition setRowCount :: "QTableWidget \<Rightarrow> nat \<Rightarrow> QTableWidget" where
  "setRowCount w n = w\<lparr>rowCount := n, item := (\<lambda>r c. if r < n then item w r c else None)\<rparr>"

definition setHorizontalHeaderLabels :: "QTableWidget \<Rightarrow> string list \<Rightarrow> QTableWidget" where
  "setHorizontalHeaderLabels w labels =
     w\<lparr>horizontalHeaderItem :=
         (\<lambda>c. if c < columnCount w \<and> c < length labels then Some (labels ! c)
              else horizontalHeaderItem w c)\<rparr>"

definition setItem :: "QTableWidget \<Rightarrow> nat \<Rightarrow> nat \<Rightarrow> string \<Rightarrow> QTableWidget" where
  "setItem w r c v =
     (if r < rowCount w \<and> c < columnCount w
      then w\<lparr>item := (\<lambda>r' c'. if r' = r \<and> c' = c then Some v else item w r' c')\<rparr>
      else w)"

function LoadTableData_cols ::
  "string list \<Rightarrow> string list \<Rightarrow> nat \<Rightarrow> nat \<Rightarrow> QTableWidget \<Rightarrow> QTableWidget" where
  "LoadTableData_cols rowData columnHeaders row col w =
     (if col < length rowData \<and> col < length columnHeaders then
        LoadTableData_cols rowData columnHeaders row (Suc col) (setItem w row col (rowData ! col))
      else w)"
  by pat_completeness auto
termination
  by (relation "measure (\<lambda>(rowData, columnHeaders, row, col, w). length rowData - col)") auto

declare LoadTableData_cols.simps [simp del]

function LoadTableData_rows ::
  "string list list \<Rightarrow> string list \<Rightarrow> nat \<Rightarrow> QTableWidget \<Rightarrow> QTableWidget" where
  "LoadTableData_rows tableRows columnHeaders row w =
     (if row < length tableRows then
        LoadTableData_rows tableRows columnHeaders (Suc row)
          (LoadTableData_cols (tableRows ! row) columnHeaders row 0 w)
      else w)"
  by pat_completeness auto
termination
  by (relation "measure (\<lambda>(tableRows, columnHeaders, row, w). length tableRows - row)") auto

declare LoadTableData_rows.simps [simp del]

text \<open>\<^verbatim>\<open>LoadTableData\<close> returns its result and the grid as it leaves it; the worker itself is
  only read.\<close>

definition LoadTableData ::
  "XMLWorker \<Rightarrow> string \<Rightarrow> QTableWidget option \<Rightarrow> bool \<times> QTableWidget option" where
  "LoadTableData s tableName tableWidget =
     (if \<not> FileLoaded s \<or> tableName = [] \<or> tableWidget = None then (False, tableWidget)
      else
        case FindTableElement s tableName of
          None \<Rightarrow> (False, tableWidget)
        | Some h \<Rightarrow>
            let tableElement = deref (XmlDocument s) h;
                columnHeaders = ExtractColumnHeaders tableElement;
                tableRows = ExtractTableRows tableElement;
                w1 = clear (the tableWidget);
                w2 = setColumnCount w1 (length columnHeaders);
                w3 = setRowCount w2 (length tableRows);
                w4 = setHorizontalHeaderLabels w3 columnHeaders
            in (True, Some (LoadTableData_rows tableRows columnHeaders 0 w4)))"

subsection \<open>Changing a table\<close>

function CreateRowElement_cells ::
  "string list \<Rightarrow> string list \<Rightarrow> nat \<Rightarrow> node \<Rightarrow> node" where
  "CreateRowElement_cells rowData columnHeaders i rowElement =
     (if i < length columnHeaders then
        let cellElement = setAttribute (createElement CELL_ELEMENT_NAME) ''name'' (columnHeaders ! i);
            cellValue = (if i < length rowData then rowData ! i else []);
            cellText = Text cellValue;
            cellElement = update_children [] (\<lambda>cs. cs @ [cellText]) cellElement
        in CreateRowElement_cells rowData columnHeaders (Suc i)
             (update_children [] (\<lambda>cs. cs @ [cellElement]) rowElement)
      else rowElement)"
  by pat_completeness auto
termination
  by (relation "measure (\<lambda>(rowData, columnHeaders, i, rowElement). length columnHeaders - i)")
    auto

declare CreateRowElement_cells.simps [simp del]

definition CreateRowElement :: "string list \<Rightarrow> string list \<Rightarrow> node" where
  "CreateRowElement rowData columnHeaders =
     CreateRowElement_cells rowData columnHeaders 0 (createElement ROW_ELEMENT_NAME)"

definition AddRowToTable :: "XMLWorker \<Rightarrow> string \<Rightarrow> string list \<Rightarrow> bool \<times> XMLWorker" where
  "AddRowToTable s tableName rowData =
     (if \<not> FileLoaded s \<or> tableName = [] then (False, s)
      else
        case FindTableElement s tableName of
          None \<Rightarrow> (False, s)
        | Some tableElement \<Rightarrow>
            let columnHeaders = ExtractColumnHeaders (deref (XmlDocument s) tableElement);
                newRowElement = CreateRowElement rowData columnHeaders
            in (True, s\<lparr>XmlDocument := appendChild (XmlDocument s) tableElement newRowElement\<rparr>))"

text \<open>\<^verbatim>\<open>DeleteRowFromTable\<close> does not look at what \<^verbatim>\<open>removeChild\<close> returns.\<close>

definition DeleteRowFromTable :: "XMLWorker \<Rightarrow> string \<Rightarrow> int \<Rightarrow> bool \<times> XMLWorker" where
  "DeleteRowFromTable s tableName rowIndex =
     (if \<not> FileLoaded s \<or> tableName = [] \<or> rowIndex < 0 then (False, s)
      else
        case FindTableElement s tableName of
          None \<Rightarrow> (False, s)
        | Some tableElement \<Rightarrow>
            let rowNodes = elementsByTagName (deref (XmlDocument s) tableElement) ROW_ELEMENT_NAME
            in if rowIndex \<ge> int (length rowNodes) then (False, s)
               else
                 let rowToDelete = rowNodes ! nat rowIndex
                 in (True, s\<lparr>XmlDocument := removeChild (XmlDocument s) tableElement rowToDelete\<rparr>))"

text \<open>The header loop of \<^verbatim>\<open>UpdateCompleteTable\<close>.\<close>

function UpdateCompleteTable_headers ::
  "QTableWidget \<Rightarrow> nat \<Rightarrow> string list \<Rightarrow> string list" where
  "UpdateCompleteTable_headers tableWidget col columnHeaders =
     (if col < columnCount tableWidget then
        UpdateCompleteTable_headers tableWidget (Suc col)
          (columnHeaders @
             [case horizontalHeaderItem tableWidget col of
                Some headerText \<Rightarrow> headerText
              | None \<Rightarrow> ''Column_'' @ number (col + 1)])
      else columnHeaders)"
  by pat_completeness auto
termination
  by (relation "measure (\<lambda>(tableWidget, col, columnHeaders). columnCount tableWidget - col)")
    auto

declare UpdateCompleteTable_headers.simps [simp del]

text \<open>
  The loop that removes the old rows. The node list is live, so it is asked again in every
  round. The loop has no bound of its own: it ends when the list is empty, so the function is
  partial, and \<open>None\<close> stands for a loop that never ends.
\<close>

partial_function (option) UpdateCompleteTable_remove :: "XMLWorker \<Rightarrow> path \<Rightarrow> XMLWorker option"
  where
  "UpdateCompleteTable_remove s tableElement =
     (if elementsByTagName (deref (XmlDocument s) tableElement) ROW_ELEMENT_NAME \<noteq> []
         \<and> length (elementsByTagName (deref (XmlDocument s) tableElement) ROW_ELEMENT_NAME) > 0
      then
        UpdateCompleteTable_remove
          (s\<lparr>XmlDocument :=
               removeChild (XmlDocument s) tableElement
                 (elementsByTagName (deref (XmlDocument s) tableElement) ROW_ELEMENT_NAME ! 0)\<rparr>)
          tableElement
      else Some s)"

function UpdateCompleteTable_cells ::
  "QTableWidget \<Rightarrow> nat \<Rightarrow> nat \<Rightarrow> string list \<Rightarrow> string list" where
  "UpdateCompleteTable_cells tableWidget row col rowData =
     (if col < columnCount tableWidget then
        UpdateCompleteTable_cells tableWidget row (Suc col)
          (rowData @ [case item tableWidget row col of Some cellText \<Rightarrow> cellText | None \<Rightarrow> []])
      else rowData)"
  by pat_completeness auto
termination
  by (relation "measure (\<lambda>(tableWidget, row, col, rowData). columnCount tableWidget - col)")
    auto

declare UpdateCompleteTable_cells.simps [simp del]

function UpdateCompleteTable_rows ::
  "QTableWidget \<Rightarrow> string list \<Rightarrow> path \<Rightarrow> nat \<Rightarrow> XMLWorker \<Rightarrow> XMLWorker" where
  "UpdateCompleteTable_rows tableWidget columnHeaders tableElement row s =
     (if row < rowCount tableWidget then
        let rowData = UpdateCompleteTable_cells tableWidget row 0 [];
            rowElement = CreateRowElement rowData columnHeaders
        in UpdateCompleteTable_rows tableWidget columnHeaders tableElement (Suc row)
             (s\<lparr>XmlDocument := appendChild (XmlDocument s) tableElement rowElement\<rparr>)
      else s)"
  by pat_completeness auto
termination
  by (relation "measure (\<lambda>(tableWidget, columnHeaders, tableElement, row, s).
                   rowCount tableWidget - row)") auto

declare UpdateCompleteTable_rows.simps [simp del]

text \<open>\<^verbatim>\<open>UpdateCompleteTable\<close> only reads the grid. \<open>None\<close>: the call does not return.\<close>

definition UpdateCompleteTable ::
  "XMLWorker \<Rightarrow> string \<Rightarrow> QTableWidget option \<Rightarrow> (bool \<times> XMLWorker) option" where
  "UpdateCompleteTable s tableName tableWidget =
     (if \<not> FileLoaded s \<or> tableName = [] \<or> tableWidget = None then Some (False, s)
      else
        case FindTableElement s tableName of
          None \<Rightarrow> Some (False, s)
        | Some tableElement \<Rightarrow>
            (let columnHeaders = UpdateCompleteTable_headers (the tableWidget) 0 []
             in (case UpdateCompleteTable_remove s tableElement of
                   None \<Rightarrow> None
                 | Some s1 \<Rightarrow>
                     Some (True,
                       UpdateCompleteTable_rows (the tableWidget) columnHeaders tableElement 0
                         s1))))"

subsection \<open>Saving\<close>

text \<open>
  \<^verbatim>\<open>SaveXMLFile\<close> writes \<^verbatim>\<open>XmlDocument.toString(4)\<close> to the current file. The serializer
  is Qt's and is a parameter, as the parser is; \<open>writable\<close> says for which paths
  \<^verbatim>\<open>QFile::open\<close> succeeds for writing. The result is the return value and the files as
  the call leaves them.
\<close>

definition SaveXMLFile ::
  "(node option \<Rightarrow> string) \<Rightarrow> (string \<Rightarrow> bool) \<Rightarrow> (string \<Rightarrow> string option) \<Rightarrow> XMLWorker
     \<Rightarrow> bool \<times> (string \<Rightarrow> string option)" where
  "SaveXMLFile toString writable files s =
     (if \<not> FileLoaded s \<or> CurrentFilePath s = [] then (False, files)
      else if \<not> writable (CurrentFilePath s) then (False, files)
      else (True, files(CurrentFilePath s \<mapsto> toString (XmlDocument s))))"

section \<open>Notions used in the proofs\<close>

text \<open>
  A recursive description of the search of \<^verbatim>\<open>FindTableElement\<close>: the first element, in
  preorder among the siblings \<open>ns\<close> and their descendants, that has tag \<open>tag\<close> and
  \<^verbatim>\<open>name\<close> attribute \<open>X\<close>. It is shown below to be what the loop over the node list
  returns.
\<close>

fun first_named :: "string \<Rightarrow> string \<Rightarrow> nat \<Rightarrow> node list \<Rightarrow> path option" where
  "first_named tag X i [] = None"
| "first_named tag X i (Element t a cs # ns) =
     (if t = tag \<and> attribute (Some (Element t a cs)) ''name'' = X then Some [i]
      else case first_named tag X 0 cs of
             Some q \<Rightarrow> Some (i # q)
           | None \<Rightarrow> first_named tag X (Suc i) ns)"
| "first_named tag X i (Text v # ns) = first_named tag X (Suc i) ns"
| "first_named tag X i (CDATASection v # ns) = first_named tag X (Suc i) ns"
| "first_named tag X i (Comment v # ns) = first_named tag X (Suc i) ns"

text \<open>
  \<open>rows_direct cs\<close>: among the children \<open>cs\<close> of a table, every \<^verbatim>\<open>row\<close> element that
  \<^verbatim>\<open>elementsByTagName\<close> finds below a child is that child itself or lies inside a child that
  is a \<^verbatim>\<open>row\<close>. This is the case exactly when the removal loop of
  \<^verbatim>\<open>UpdateCompleteTable\<close> comes to an end.
\<close>

fun is_row :: "node \<Rightarrow> bool" where
  "is_row (Element t a cs) = (t = ROW_ELEMENT_NAME)"
| "is_row (Text v) = False"
| "is_row (CDATASection v) = False"
| "is_row (Comment v) = False"

definition rows_direct :: "node list \<Rightarrow> bool" where
  "rows_direct cs =
     list_all (\<lambda>c. is_row c \<or> elementsByTagName (Some c) ROW_ELEMENT_NAME = []) cs"

text \<open>
  \<open>rows_flat cs\<close>: no child of the table has a \<^verbatim>\<open>row\<close> element below it, so the rows of
  the table are the children that are rows, and no row holds another row.
\<close>

definition rows_flat :: "node list \<Rightarrow> bool" where
  "rows_flat cs = list_all (\<lambda>c. elementsByTagName (Some c) ROW_ELEMENT_NAME = []) cs"

section \<open>Example data\<close>

text \<open>
  A table with rows \<open>[[a, b], [c]]\<close> whose first row names its cells \<open>Col1\<close> and \<open>Col2\<close>,
  and one whose first cell has no \<^verbatim>\<open>name\<close> attribute.
\<close>

definition two_row_table :: node where
  "two_row_table =
     Element ''table'' [(''name'', ''T'')]
       [Element ''row'' []
          [Element ''cell'' [(''name'', ''Col1'')] [Text ''a''],
           Element ''cell'' [(''name'', ''Col2'')] [Text ''b'']],
        Element ''row'' []
          [Element ''cell'' [(''name'', ''Col1'')] [Text ''c'']]]"

definition unnamed_cell_table :: node where
  "unnamed_cell_table =
     Element ''table'' [(''name'', ''U'')]
       [Element ''row'' []
          [Element ''cell'' [] [Text ''x''],
           Element ''cell'' [(''name'', ''B'')] [Text ''y'', CDATASection ''z'']]]"

text \<open>
  A document with four tables: \<open>People\<close>, a second table that is also called \<open>People\<close>,
  the table \<open>Empty\<close> without rows, and the table \<open>Grouped\<close>, whose only row is not a child
  of the table but of a \<^verbatim>\<open>group\<close> element inside it.
\<close>

definition people_document :: node where
  "people_document =
     Element ''database'' []
       [Element ''table'' [(''name'', ''People'')]
          [Element ''row'' []
             [Element ''cell'' [(''name'', ''Name'')] [Text ''Ann''],
              Element ''cell'' [(''name'', ''Age'')] [Text ''30'']],
           Element ''row'' []
             [Element ''cell'' [(''name'', ''Name'')] [Text ''Bob'']]],
        Element ''table'' [(''name'', ''People'')]
          [Element ''row'' []
             [Element ''cell'' [(''name'', ''Name'')] [Text ''Cy'']]],
        Element ''table'' [(''name'', ''Empty'')] [],
        Element ''table'' [(''name'', ''Grouped'')]
          [Element ''group'' []
             [Element ''row'' []
                [Element ''cell'' [(''name'', ''Name'')] [Text ''Dee'']]]]]"

text \<open>The worker after it has opened that document from \<^verbatim>\<open>people.xml\<close>.\<close>

definition people :: XMLWorker where
  "people =
     \<lparr>CurrentFilePath = ''people.xml'', XmlDocument = Some people_document,
      AvailableTableNames = [''People'', ''People'', ''Empty'', ''Grouped''],
      FileLoaded = True\<rparr>"

text \<open>
  Three files and a stand-in for the XML parser on their contents: \<^verbatim>\<open>people.xml\<close> holds the
  document above (its text is abbreviated here, the parser below gives the tree), and the
  other two are malformed: one ends inside a tag, one closes a tag that is not open. For both
  the stand-in reports an error and leaves the root element it had built.
\<close>

definition example_files :: "string \<Rightarrow> string option" where
  "example_files filePath =
     (if filePath = ''people.xml'' then Some ''<database>(four tables)</database>''
      else if filePath = ''broken.xml'' then Some ''<database><table''
      else if filePath = ''mismatch.xml'' then Some ''<database></table>''
      else None)"

definition example_setContent :: "string \<Rightarrow> parse_result" where
  "example_setContent xml =
     (if xml = ''<database>(four tables)</database>'' then Parsed (Some people_document)
      else if xml = ''<database><table'' then
        ParseFailed ''unexpected end of file'' 1 17 (Some (Element ''database'' [] []))
      else if xml = ''<database></table>'' then
        ParseFailed ''tag mismatch'' 1 19 (Some (Element ''database'' [] []))
      else ParseFailed ''error occurred while parsing element'' 1 1 None)"

text \<open>A grid with the columns \<open>Name\<close> and \<open>Age\<close> and the rows \<open>[Ann, 31]\<close> and
  \<open>[Bob, 25]\<close>.\<close>

definition example_grid :: QTableWidget where
  "example_grid =
     \<lparr>columnCount = 2, rowCount = 2,
      horizontalHeaderItem =
        (\<lambda>c. if c = 0 then Some ''Name'' else if c = 1 then Some ''Age'' else None),
      item =
        (\<lambda>r c. if r = 0 \<and> c = 0 then Some ''Ann'' else if r = 0 \<and> c = 1 then Some ''31''
               else if r = 1 \<and> c = 0 then Some ''Bob'' else if r = 1 \<and> c = 1 then Some ''25''
               else None)\<rparr>"

text \<open>The worker \<open>people\<close> after the first table \<open>People\<close> has been replaced by the rows of
  that grid.\<close>

definition people_updated :: XMLWorker where
  "people_updated =
     people\<lparr>XmlDocument := Some (
       Element ''database'' []
         [Element ''table'' [(''name'', ''People'')]
            [Element ''row'' []
               [Element ''cell'' [(''name'', ''Name'')] [Text ''Ann''],
                Element ''cell'' [(''name'', ''Age'')] [Text ''31'']],
             Element ''row'' []
               [Element ''cell'' [(''name'', ''Name'')] [Text ''Bob''],
                Element ''cell'' [(''name'', ''Age'')] [Text ''25'']]],
          Element ''table'' [(''name'', ''People'')]
            [Element ''row'' []
               [Element ''cell'' [(''name'', ''Name'')] [Text ''Cy'']]],
          Element ''table'' [(''name'', ''Empty'')] [],
          Element ''table'' [(''name'', ''Grouped'')]
            [Element ''group'' []
               [Element ''row'' []
                  [Element ''cell'' [(''name'', ''Name'')] [Text ''Dee'']]]]])\<rparr>"

section \<open>Properties of the model\<close>

subsection \<open>The counting loops as list functions\<close>

text \<open>
  Each \<^verbatim>\<open>for\<close> loop of the worker computes a map over the indexes it runs through.
\<close>

lemma ExtractColumnHeaders_cells_eq:
  "ExtractColumnHeaders_cells firstRow cellNodes i headers =
     headers @ map (\<lambda>j. let c = attribute (toElement (nodeList_at firstRow cellNodes j)) ''name''
                         in if c = [] then ''Column_'' @ number (j + 1) else c)
                   [i..<length cellNodes]"
proof (induction firstRow cellNodes i headers rule: ExtractColumnHeaders_cells.induct)
  case (1 firstRow cellNodes i headers)
  show ?case
  proof (cases "i < length cellNodes")
    case True
    then show ?thesis
      using "1.IH" [OF True refl refl]
      by (subst ExtractColumnHeaders_cells.simps) (simp add: upt_conv_Cons Let_def)
  next
    case False
    then show ?thesis
      by (subst ExtractColumnHeaders_cells.simps) simp
  qed
qed

lemma ExtractTableRows_cells_eq:
  "ExtractTableRows_cells rowElement cellNodes j rowData =
     rowData @ map (\<lambda>k. text_of (toElement (nodeList_at rowElement cellNodes k)))
                   [j..<length cellNodes]"
proof (induction rowElement cellNodes j rowData rule: ExtractTableRows_cells.induct)
  case (1 rowElement cellNodes j rowData)
  show ?case
  proof (cases "j < length cellNodes")
    case True
    then show ?thesis
      using "1.IH" [OF True refl]
      by (subst ExtractTableRows_cells.simps) (simp add: upt_conv_Cons Let_def)
  next
    case False
    then show ?thesis
      by (subst ExtractTableRows_cells.simps) simp
  qed
qed

lemma ExtractTableRows_rows_eq:
  "ExtractTableRows_rows tableElement rowNodes i rows =
     rows @ map (\<lambda>k. let rowElement = toElement (nodeList_at tableElement rowNodes k)
                      in ExtractTableRows_cells rowElement
                           (elementsByTagName rowElement CELL_ELEMENT_NAME) 0 [])
                [i..<length rowNodes]"
proof (induction tableElement rowNodes i rows rule: ExtractTableRows_rows.induct)
  case (1 tableElement rowNodes i rows)
  show ?case
  proof (cases "i < length rowNodes")
    case True
    then show ?thesis
      using "1.IH" [OF True refl refl refl]
      by (subst ExtractTableRows_rows.simps) (simp add: upt_conv_Cons Let_def)
  next
    case False
    then show ?thesis
      by (subst ExtractTableRows_rows.simps) simp
  qed
qed

lemma FindTableElement_loop_eq:
  "FindTableElement_loop rootElement tableNodes tableName i =
     List.find (\<lambda>p. attribute (toElement (deref rootElement p)) ''name'' = tableName)
       (drop i tableNodes)"
proof (induction rootElement tableNodes tableName i rule: FindTableElement_loop.induct)
  case (1 rootElement tableNodes tableName i)
  show ?case
  proof (cases "i < length tableNodes")
    case True
    then show ?thesis
      using "1.IH" [OF True refl]
      by (subst FindTableElement_loop.simps)
        (simp add: Cons_nth_drop_Suc [symmetric] nodeList_at_def Let_def)
  next
    case False
    then show ?thesis
      by (subst FindTableElement_loop.simps) simp
  qed
qed

lemma CreateRowElement_cells_eq:
  "CreateRowElement_cells rowData columnHeaders i (Element t a cs) =
     Element t a
       (cs @ map (\<lambda>k. Element CELL_ELEMENT_NAME [(''name'', columnHeaders ! k)]
                       [Text (if k < length rowData then rowData ! k else [])])
                 [i..<length columnHeaders])"
proof (induction rowData columnHeaders i "Element t a cs" arbitrary: cs
    rule: CreateRowElement_cells.induct)
  case (1 rowData columnHeaders i)
  show ?case
  proof (cases "i < length columnHeaders")
    case True
    then show ?thesis
      using "1.hyps" [OF True refl refl refl refl]
      by (subst CreateRowElement_cells.simps)
        (simp add: upt_conv_Cons Let_def createElement_def)
  next
    case False
    then show ?thesis
      by (subst CreateRowElement_cells.simps) simp
  qed
qed

lemma UpdateCompleteTable_headers_eq:
  "UpdateCompleteTable_headers w col hs =
     hs @ map (\<lambda>c. case horizontalHeaderItem w c of Some headerText \<Rightarrow> headerText
                    | None \<Rightarrow> ''Column_'' @ number (c + 1)) [col..<columnCount w]"
proof (induction w col hs rule: UpdateCompleteTable_headers.induct)
  case (1 w col hs)
  show ?case
  proof (cases "col < columnCount w")
    case True
    then show ?thesis
      using "1.IH" [OF True]
      by (subst UpdateCompleteTable_headers.simps) (simp add: upt_conv_Cons)
  next
    case False
    then show ?thesis
      by (subst UpdateCompleteTable_headers.simps) simp
  qed
qed

lemma UpdateCompleteTable_cells_eq:
  "UpdateCompleteTable_cells w row col rowData =
     rowData @ map (\<lambda>c. case item w row c of Some cellText \<Rightarrow> cellText | None \<Rightarrow> [])
                   [col..<columnCount w]"
proof (induction w row col rowData rule: UpdateCompleteTable_cells.induct)
  case (1 w row col rowData)
  show ?case
  proof (cases "col < columnCount w")
    case True
    then show ?thesis
      using "1.IH" [OF True]
      by (subst UpdateCompleteTable_cells.simps) (simp add: upt_conv_Cons)
  next
    case False
    then show ?thesis
      by (subst UpdateCompleteTable_cells.simps) simp
  qed
qed

subsection \<open>Node lists and tree updates\<close>

lemma createList_append:
  "createList tag i (xs @ ys) = createList tag i xs @ createList tag (i + length xs) ys"
  by (induction tag i xs rule: createList.induct) auto

lemma createList_members:
  "p \<in> set (createList tag i ns) \<Longrightarrow>
     \<exists>j q a cs. p = (i + j) # q \<and> j < length ns \<and> node_at (ns ! j) q = Some (Element tag a cs)"
proof (induction tag i ns arbitrary: p rule: createList.induct)
  case (1 tagname i)
  then show ?case by simp
next
  case (2 tagname i t a cs ns)
  from "2.prems" consider
    (self) "t = tagname" "p = [i]"
    | (inner) "p \<in> (#) i ` set (createList tagname 0 cs)"
    | (rest) "p \<in> set (createList tagname (Suc i) ns)"
    by (auto split: if_splits)
  then show ?case
  proof cases
    case self
    then show ?thesis by (intro exI [of _ 0]) simp
  next
    case inner
    then obtain q where q: "q \<in> set (createList tagname 0 cs)" "p = i # q" by auto
    from "2.IH"(1) [OF q(1)] obtain j r a' cs' where
      "q = j # r" "j < length cs" "node_at (cs ! j) r = Some (Element tagname a' cs')"
      by auto
    with q show ?thesis by (intro exI [of _ 0]) simp
  next
    case rest
    from "2.IH"(2) [OF rest] obtain j q a' cs' where
      "p = (Suc i + j) # q" "j < length ns" "node_at (ns ! j) q = Some (Element tagname a' cs')"
      by auto
    then show ?thesis by (intro exI [of _ "Suc j"]) simp
  qed
next
  case (3 tagname i v ns)
  from "3.IH" [OF "3.prems" [simplified]] obtain j q a' cs' where
      "p = (Suc i + j) # q" "j < length ns" "node_at (ns ! j) q = Some (Element tagname a' cs')"
      by auto
  then show ?case by (intro exI [of _ "Suc j"]) simp
next
  case (4 tagname i v ns)
  from "4.IH" [OF "4.prems" [simplified]] obtain j q a' cs' where
      "p = (Suc i + j) # q" "j < length ns" "node_at (ns ! j) q = Some (Element tagname a' cs')"
      by auto
  then show ?case by (intro exI [of _ "Suc j"]) simp
next
  case (5 tagname i v ns)
  from "5.IH" [OF "5.prems" [simplified]] obtain j q a' cs' where
      "p = (Suc i + j) # q" "j < length ns" "node_at (ns ! j) q = Some (Element tagname a' cs')"
      by auto
  then show ?case by (intro exI [of _ "Suc j"]) simp
qed

lemma elementsByTagName_members:
  assumes "p \<in> set (elementsByTagName e tag)"
  shows "\<exists>a cs. deref e p = Some (Element tag a cs)"
proof -
  from assms obtain t a cs where e: "e = Some (Element t a cs)"
    and p: "p \<in> set (createList tag 0 cs)"
    by (auto simp: elementsByTagName_def split: option.splits node.splits)
  from createList_members [OF p] show ?thesis
    by (auto simp: deref_def e)
qed

lemma toElement_member:
  "p \<in> set (elementsByTagName e tag) \<Longrightarrow> toElement (deref e p) = deref e p"
  by (auto dest: elementsByTagName_members simp: toElement_def)

lemma update_children_compose:
  "update_children p h2 (update_children p h1 n) = update_children p (\<lambda>cs. h2 (h1 cs)) n"
proof (induction p h1 n rule: update_children.induct)
  case (2 i p h t a cs)
  then show ?case by (cases "i < length cs") simp_all
qed simp_all

lemma update_children_at:
  "node_at n p = Some (Element t a cs) \<Longrightarrow>
     node_at (update_children p h n) p = Some (Element t a (h cs))"
proof (induction p h n rule: update_children.induct)
  case (2 i p h t' a' cs')
  then show ?case by (cases "i < length cs'") simp_all
qed (case_tac p; simp)+

lemma update_children_cong:
  "node_at n p = Some (Element t a cs) \<Longrightarrow> h cs = h' cs \<Longrightarrow>
     update_children p h n = update_children p h' n"
proof (induction p h n rule: update_children.induct)
  case (2 i p h t' a' cs')
  then show ?case by (cases "i < length cs'") simp_all
qed (case_tac p; simp)+

subsection \<open>The search for a table\<close>

text \<open>
  The loop of \<^verbatim>\<open>FindTableElement\<close> over the node list returns what the recursive search
  \<open>first_named\<close> returns, and that result stays when the children of a table with the
  searched name are changed.
\<close>

lemma find_append:
  "List.find P (xs @ ys) = (case List.find P xs of Some x \<Rightarrow> Some x | None \<Rightarrow> List.find P ys)"
  by (induction xs) auto

lemma find_map:
  "List.find P (map f xs) = map_option f (List.find (\<lambda>x. P (f x)) xs)"
  by (induction xs) auto

lemma find_three:
  "List.find P ((if b then [x] else []) @ ys @ zs) =
     (if b \<and> P x then Some x
      else case List.find P ys of Some y \<Rightarrow> Some y | None \<Rightarrow> List.find P zs)"
  by (simp add: find_append)

lemma find_createList:
  "i = length pre \<Longrightarrow>
     List.find (\<lambda>p. attribute (toElement (node_at (Element t0 a0 (pre @ ns)) p)) ''name'' = X)
       (createList tag i ns) = first_named tag X i ns"
proof (induction tag i ns arbitrary: pre t0 a0 rule: createList.induct)
  case (1 tagname i)
  then show ?case by simp
next
  case (2 tagname i t a cs ns)
  let ?root = "Element t0 a0 (pre @ Element t a cs # ns)"
  let ?P = "\<lambda>root p. attribute (toElement (node_at root p)) ''name'' = X"
  have inner: "List.find (?P (Element t a cs)) (createList tagname 0 cs)
                 = first_named tagname X 0 cs"
    using "2.IH"(1) [of "[]" t a] by simp
  have rest: "List.find (?P ?root) (createList tagname (Suc i) ns)
                = first_named tagname X (Suc i) ns"
    using "2.IH"(2) [of "pre @ [Element t a cs]" t0 a0] "2.prems" by simp
  have self: "?P ?root [i] \<longleftrightarrow> attribute (Some (Element t a cs)) ''name'' = X"
    using "2.prems" by (simp add: nth_append toElement_def)
  have below: "List.find (?P ?root) (map ((#) i) (createList tagname 0 cs))
                 = map_option ((#) i) (first_named tagname X 0 cs)"
    using "2.prems" inner by (simp add: find_map nth_append)
  have "List.find (?P ?root) (createList tagname i (Element t a cs # ns))
          = (if t = tagname \<and> attribute (Some (Element t a cs)) ''name'' = X then Some [i]
             else case map_option ((#) i) (first_named tagname X 0 cs) of
                    Some x \<Rightarrow> Some x
                  | None \<Rightarrow> first_named tagname X (Suc i) ns)"
    by (simp only: createList.simps find_three below rest self)
  also have "\<dots> = first_named tagname X i (Element t a cs # ns)"
    by (cases "first_named tagname X 0 cs") auto
  finally show ?case .
next
  case (3 tagname i v ns)
  show ?case
    using "3.IH" [of "pre @ [Text v]" t0 a0] "3.prems" by simp
next
  case (4 tagname i v ns)
  show ?case
    using "4.IH" [of "pre @ [CDATASection v]" t0 a0] "4.prems" by simp
next
  case (5 tagname i v ns)
  show ?case
    using "5.IH" [of "pre @ [Comment v]" t0 a0] "5.prems" by simp
qed

lemma FindTableElement_first_named:
  "FindTableElement s X =
     (case XmlDocument s of
        Some (Element t a cs) \<Rightarrow> first_named TABLE_ELEMENT_NAME X 0 cs
      | _ \<Rightarrow> None)"
proof (cases "XmlDocument s")
  case None
  then show ?thesis
    by (simp add: FindTableElement_def FindTableElement_loop_eq elementsByTagName_def)
next
  case (Some n)
  show ?thesis
  proof (cases n)
    case (Element t a cs)
    show ?thesis
      using find_createList [of 0 "[]" t a cs X TABLE_ELEMENT_NAME]
      by (simp add: FindTableElement_def FindTableElement_loop_eq elementsByTagName_def Some
          Element deref_def)
  qed (simp_all add: FindTableElement_def FindTableElement_loop_eq elementsByTagName_def Some)
qed

lemma update_children_Element:
  "\<exists>cs'. update_children q h (Element t a cs) = Element t a cs'"
  by (cases q) auto

lemma first_named_None:
  "first_named tag X i ns = None \<Longrightarrow> j < length ns \<Longrightarrow>
     node_at (ns ! j) q = Some (Element tag a cs) \<Longrightarrow>
     attribute (Some (Element tag a cs)) ''name'' \<noteq> X"
proof (induction tag X i ns arbitrary: j q rule: first_named.induct)
  case (1 tag X i)
  then show ?case by simp
next
  case (2 tag X i t a' cs' ns)
  from "2.prems"(1) have nomatch: "\<not> (t = tag \<and> attribute (Some (Element t a' cs')) ''name'' = X)"
    and inner: "first_named tag X 0 cs' = None"
    and rest: "first_named tag X (Suc i) ns = None"
    by (auto split: if_splits option.splits)
  show ?case
  proof (cases j)
    case 0
    show ?thesis
    proof (cases q)
      case Nil
      with 0 "2.prems"(3) nomatch show ?thesis by (auto simp: attribute_def)
    next
      case (Cons k q')
      with 0 "2.prems"(3) have "k < length cs'" "node_at (cs' ! k) q' = Some (Element tag a cs)"
        by (auto split: if_splits)
      with "2.IH"(1) [OF nomatch inner] show ?thesis by blast
    qed
  next
    case (Suc j')
    with "2.prems" have "j' < length ns" "node_at (ns ! j') q = Some (Element tag a cs)"
      by auto
    with "2.IH"(2) [OF nomatch inner rest] show ?thesis by blast
  qed
next
  case (3 tag X i v ns)
  show ?case
  proof (cases j)
    case 0
    with "3.prems"(3) show ?thesis by (cases q) auto
  next
    case (Suc j')
    with "3.prems" "3.IH" [of j' q] show ?thesis by auto
  qed
next
  case (4 tag X i v ns)
  show ?case
  proof (cases j)
    case 0
    with "4.prems"(3) show ?thesis by (cases q) auto
  next
    case (Suc j')
    with "4.prems" "4.IH" [of j' q] show ?thesis by auto
  qed
next
  case (5 tag X i v ns)
  show ?case
  proof (cases j)
    case 0
    with "5.prems"(3) show ?thesis by (cases q) auto
  next
    case (Suc j')
    with "5.prems" "5.IH" [of j' q] show ?thesis by auto
  qed
qed

lemma first_named_stable:
  "first_named tag X i ns = Some p1 \<Longrightarrow> j < length ns \<Longrightarrow>
     node_at (ns ! j) q = Some (Element tag a cs) \<Longrightarrow>
     attribute (Some (Element tag a cs)) ''name'' = X \<Longrightarrow>
     first_named tag X i (ns[j := update_children q h (ns ! j)]) = Some p1"
proof (induction tag X i ns arbitrary: p1 j q rule: first_named.induct)
  case (1 tag X i)
  then show ?case by simp
next
  case (2 tag X i t a' cs' ns)
  let ?head = "Element t a' cs'"
  show ?case
  proof (cases "t = tag \<and> attribute (Some ?head) ''name'' = X")
    case True
    with "2.prems"(1) have p1: "p1 = [i]" by auto
    show ?thesis
    proof (cases j)
      case 0
      obtain cs'' where "update_children q h ?head = Element t a' cs''"
        using update_children_Element by blast
      with 0 True p1 show ?thesis by (auto simp: attribute_def)
    next
      case (Suc j')
      with True p1 show ?thesis by auto
    qed
  next
    case nomatch: False
    show ?thesis
    proof (cases "first_named tag X 0 cs'")
      case (Some q1)
      with nomatch "2.prems"(1) have p1: "p1 = i # q1" by (auto split: if_splits)
      show ?thesis
      proof (cases j)
        case 0
        show ?thesis
        proof (cases q)
          case Nil
          with 0 "2.prems"(3,4) nomatch show ?thesis by (auto simp: attribute_def)
        next
          case (Cons k q')
          with 0 "2.prems"(3) have k: "k < length cs'"
            and at: "node_at (cs' ! k) q' = Some (Element tag a cs)"
            by (auto split: if_splits)
          from "2.IH"(1) [OF nomatch Some k at "2.prems"(4)]
          have "first_named tag X 0 (cs'[k := update_children q' h (cs' ! k)]) = Some q1" .
          with 0 Cons k nomatch p1 show ?thesis by (auto simp: attribute_def)
        qed
      next
        case (Suc j')
        with nomatch Some p1 show ?thesis by auto
      qed
    next
      case None
      with nomatch "2.prems"(1) have rest: "first_named tag X (Suc i) ns = Some p1"
        by (auto split: if_splits)
      show ?thesis
      proof (cases j)
        case 0
        show ?thesis
        proof (cases q)
          case Nil
          with 0 "2.prems"(3,4) nomatch show ?thesis by (auto simp: attribute_def)
        next
          case (Cons k q')
          with 0 "2.prems"(3) have k: "k < length cs'"
            and at: "node_at (cs' ! k) q' = Some (Element tag a cs)"
            by (auto split: if_splits)
          from first_named_None [OF None k at] "2.prems"(4) show ?thesis by simp
        qed
      next
        case (Suc j')
        with "2.prems" have j': "j' < length ns"
          and at: "node_at (ns ! j') q = Some (Element tag a cs)" by auto
        from "2.IH"(2) [OF nomatch None rest j' at "2.prems"(4)]
        show ?thesis using Suc nomatch None by auto
      qed
    qed
  qed
next
  case (3 tag X i v ns)
  show ?case
  proof (cases j)
    case 0
    with "3.prems"(3) show ?thesis by (cases q) auto
  next
    case (Suc j')
    with "3.prems" "3.IH" [of p1 j' q] show ?thesis by auto
  qed
next
  case (4 tag X i v ns)
  show ?case
  proof (cases j)
    case 0
    with "4.prems"(3) show ?thesis by (cases q) auto
  next
    case (Suc j')
    with "4.prems" "4.IH" [of p1 j' q] show ?thesis by auto
  qed
next
  case (5 tag X i v ns)
  show ?case
  proof (cases j)
    case 0
    with "5.prems"(3) show ?thesis by (cases q) auto
  next
    case (Suc j')
    with "5.prems" "5.IH" [of p1 j' q] show ?thesis by auto
  qed
qed

subsection \<open>The loop that removes the rows\<close>

text \<open>
  The loop of \<^verbatim>\<open>UpdateCompleteTable\<close> that removes the old rows comes to an end exactly
  on the tables with \<open>rows_direct\<close>, and then it has removed the children that are rows.
\<close>

lemma update_children_id: "update_children p (\<lambda>cs. cs) n = n"
proof (induction p "\<lambda>cs :: node list. cs" n rule: update_children.induct)
  case (2 i p t a cs)
  then show ?case by (cases "i < length cs") simp_all
qed simp_all

lemma createList_empty:
  "createList ROW_ELEMENT_NAME i cs = [] \<Longrightarrow> rows_direct cs"
proof (induction cs arbitrary: i)
  case Nil
  show ?case by (simp add: rows_direct_def)
next
  case (Cons c cs)
  then show ?case
    by (cases c) (auto simp: rows_direct_def elementsByTagName_def split: if_splits)
qed

lemma createList_no_rows:
  "rows_direct cs \<Longrightarrow> filter is_row cs = [] \<Longrightarrow> createList ROW_ELEMENT_NAME i cs = []"
proof (induction cs arbitrary: i)
  case Nil
  show ?case by simp
next
  case (Cons c cs)
  then show ?case
    by (cases c) (auto simp: rows_direct_def elementsByTagName_def split: if_splits)
qed

lemma createList_first_row:
  "rows_direct cs \<Longrightarrow> filter is_row cs \<noteq> [] \<Longrightarrow>
     \<exists>k rest. createList ROW_ELEMENT_NAME i cs = [i + k] # rest \<and> k < length cs \<and> is_row (cs ! k)"
proof (induction ROW_ELEMENT_NAME i cs rule: createList.induct)
  case (1 i)
  then show ?case by simp
next
  case (2 i t a cs ns)
  show ?case
  proof (cases "t = ROW_ELEMENT_NAME")
    case True
    then show ?thesis by (intro exI [of _ 0]) simp
  next
    case False
    with "2.prems" have inner: "createList ROW_ELEMENT_NAME 0 cs = []"
      and rd: "rows_direct ns" and ne: "filter is_row ns \<noteq> []"
      by (auto simp: rows_direct_def elementsByTagName_def)
    from "2.hyps"(2) [OF rd ne] obtain k rest where
      "createList ROW_ELEMENT_NAME (Suc i) ns = [Suc i + k] # rest" "k < length ns" "is_row (ns ! k)"
      by blast
    with False inner show ?thesis by (intro exI [of _ "Suc k"]) simp
  qed
next
  case (3 i v ns)
  then have rd: "rows_direct ns" and ne: "filter is_row ns \<noteq> []"
    by (auto simp: rows_direct_def)
  from "3.hyps" [OF rd ne] obtain k rest where
    "createList ROW_ELEMENT_NAME (Suc i) ns = [Suc i + k] # rest" "k < length ns" "is_row (ns ! k)"
    by blast
  then show ?case by (intro exI [of _ "Suc k"]) simp
next
  case (4 i v ns)
  then have rd: "rows_direct ns" and ne: "filter is_row ns \<noteq> []"
    by (auto simp: rows_direct_def)
  from "4.hyps" [OF rd ne] obtain k rest where
    "createList ROW_ELEMENT_NAME (Suc i) ns = [Suc i + k] # rest" "k < length ns" "is_row (ns ! k)"
    by blast
  then show ?case by (intro exI [of _ "Suc k"]) simp
next
  case (5 i v ns)
  then have rd: "rows_direct ns" and ne: "filter is_row ns \<noteq> []"
    by (auto simp: rows_direct_def)
  from "5.hyps" [OF rd ne] obtain k rest where
    "createList ROW_ELEMENT_NAME (Suc i) ns = [Suc i + k] # rest" "k < length ns" "is_row (ns ! k)"
    by blast
  then show ?case by (intro exI [of _ "Suc k"]) simp
qed

lemma filter_remove_nth:
  assumes "k < length cs" "P (cs ! k)"
  shows "filter (\<lambda>c. \<not> P c) (take k cs @ drop (Suc k) cs) = filter (\<lambda>c. \<not> P c) cs"
proof -
  have "filter (\<lambda>c. \<not> P c) cs = filter (\<lambda>c. \<not> P c) (take k cs @ cs ! k # drop (Suc k) cs)"
    by (rule arg_cong [OF id_take_nth_drop [OF assms(1)]])
  also have "\<dots> = filter (\<lambda>c. \<not> P c) (take k cs @ drop (Suc k) cs)"
    using assms(2) by simp
  finally show ?thesis by simp
qed

lemma length_filter_remove_nth:
  assumes "k < length cs" "P (cs ! k)"
  shows "Suc (length (filter P (take k cs @ drop (Suc k) cs))) = length (filter P cs)"
proof -
  have "length (filter P cs) = length (filter P (take k cs @ cs ! k # drop (Suc k) cs))"
    by (rule arg_cong [OF id_take_nth_drop [OF assms(1)]])
  also have "\<dots> = Suc (length (filter P (take k cs @ drop (Suc k) cs)))"
    using assms(2) by simp
  finally show ?thesis by simp
qed

lemma rows_direct_remove_nth:
  "rows_direct cs \<Longrightarrow> rows_direct (take k cs @ drop (Suc k) cs)"
  by (auto simp: rows_direct_def list_all_iff dest: in_set_takeD in_set_dropD)

lemma rows_direct_insert_nth:
  assumes "rows_direct (take k cs @ drop (Suc k) cs)" "k < length cs" "is_row (cs ! k)"
  shows "rows_direct cs"
proof -
  have "set cs = set (take k cs @ cs ! k # drop (Suc k) cs)"
    by (rule arg_cong [OF id_take_nth_drop [OF assms(2)]])
  then have "set cs = set (take k cs) \<union> {cs ! k} \<union> set (drop (Suc k) cs)"
    by simp
  with assms show ?thesis by (auto simp: rows_direct_def list_all_iff)
qed

lemma deref_SomeE:
  assumes "deref d p = Some n"
  obtains root where "d = Some root" "node_at root p = Some n"
  using assms by (cases d) (auto simp: deref_def)

lemma remove_step:
  assumes "deref (XmlDocument s) p = Some (Element t a cs)"
    and "createList ROW_ELEMENT_NAME 0 cs = q # rest"
  shows "UpdateCompleteTable_remove s p =
           UpdateCompleteTable_remove (s\<lparr>XmlDocument := removeChild (XmlDocument s) p q\<rparr>) p"
  using assms
  by (subst UpdateCompleteTable_remove.simps) (simp add: elementsByTagName_def)

lemma remove_stop:
  assumes "deref (XmlDocument s) p = Some (Element t a cs)"
    and "createList ROW_ELEMENT_NAME 0 cs = []"
  shows "UpdateCompleteTable_remove s p = Some s"
  using assms
  by (subst UpdateCompleteTable_remove.simps) (simp add: elementsByTagName_def)

lemma remove_returns:
  assumes "deref (XmlDocument s) p = Some (Element t a cs)" and "rows_direct cs"
  shows "UpdateCompleteTable_remove s p =
           Some (s\<lparr>XmlDocument :=
                    map_option (update_children p (filter (\<lambda>c. \<not> is_row c))) (XmlDocument s)\<rparr>)"
  using assms
proof (induction "length (filter is_row cs)" arbitrary: s cs)
  case 0
  then have norow: "filter is_row cs = []" by simp
  from "0.prems"(1) obtain root where root: "XmlDocument s = Some root"
    and at: "node_at root p = Some (Element t a cs)" by (rule deref_SomeE)
  have "filter (\<lambda>c. \<not> is_row c) cs = cs"
    using norow by (simp add: filter_empty_conv)
  then have "update_children p (filter (\<lambda>c. \<not> is_row c)) root = update_children p (\<lambda>cs. cs) root"
    by (intro update_children_cong [OF at])
  then have same: "update_children p (filter (\<lambda>c. \<not> is_row c)) root = root"
    by (simp add: update_children_id)
  have stop: "UpdateCompleteTable_remove s p = Some s"
    by (rule remove_stop [OF "0.prems"(1) createList_no_rows [OF "0.prems"(2) norow]])
  have "s\<lparr>XmlDocument :=
           map_option (update_children p (filter (\<lambda>c. \<not> is_row c))) (XmlDocument s)\<rparr> = s"
    using root same by simp
  with stop show ?case by simp
next
  case (Suc n)
  from Suc.hyps(2) have rows: "filter is_row cs \<noteq> []" by auto
  from createList_first_row [OF Suc.prems(2) rows, of 0] obtain k rest where
    first: "createList ROW_ELEMENT_NAME 0 cs = [k] # rest" and k: "k < length cs"
    and row: "is_row (cs ! k)"
    by auto
  from Suc.prems(1) obtain root where root: "XmlDocument s = Some root"
    and at: "node_at root p = Some (Element t a cs)" by (rule deref_SomeE)
  let ?rm = "\<lambda>cs. take k cs @ drop (Suc k) cs"
  let ?s' = "s\<lparr>XmlDocument := Some (update_children p ?rm root)\<rparr>"
  have s': "s\<lparr>XmlDocument := removeChild (XmlDocument s) p [k]\<rparr> = ?s'"
    by (simp add: removeChild_def root)
  have at': "deref (XmlDocument ?s') p = Some (Element t a (?rm cs))"
    by (simp add: deref_def update_children_at [OF at])
  have n: "n = length (filter is_row (?rm cs))"
    using length_filter_remove_nth [of k cs is_row, OF k row] Suc.hyps(2) by simp
  have step1: "UpdateCompleteTable_remove s p = UpdateCompleteTable_remove ?s' p"
    using remove_step [OF Suc.prems(1) first] s' by simp
  have step2: "UpdateCompleteTable_remove ?s' p =
      Some (?s'\<lparr>XmlDocument :=
              map_option (update_children p (filter (\<lambda>c. \<not> is_row c))) (XmlDocument ?s')\<rparr>)"
    by (rule Suc.hyps(1) [OF n at' rows_direct_remove_nth [OF Suc.prems(2)]])
  have "update_children p (filter (\<lambda>c. \<not> is_row c)) (update_children p ?rm root)
               = update_children p (\<lambda>cs. filter (\<lambda>c. \<not> is_row c) (?rm cs)) root"
    by (rule update_children_compose)
  also have "\<dots> = update_children p (filter (\<lambda>c. \<not> is_row c)) root"
    by (rule update_children_cong [OF at]) (rule filter_remove_nth [of k cs is_row, OF k row])
  finally have doc: "update_children p (filter (\<lambda>c. \<not> is_row c)) (update_children p ?rm root)
      = update_children p (filter (\<lambda>c. \<not> is_row c)) root" .
  show ?case
    unfolding step1 step2 by (simp add: root doc)
qed

lemma remove_returns_only_if:
  assumes "UpdateCompleteTable_remove s p = Some r"
  shows "\<forall>t a cs. deref (XmlDocument s) p = Some (Element t a cs) \<longrightarrow> rows_direct cs"
proof (rule UpdateCompleteTable_remove.raw_induct
    [where P = "\<lambda>s p r. \<forall>t a cs. deref (XmlDocument s) p = Some (Element t a cs)
                  \<longrightarrow> rows_direct cs", OF _ assms])
  fix remove :: "XMLWorker \<Rightarrow> path \<Rightarrow> XMLWorker option" and s p r
  assume IH: "\<And>s p r. remove s p = Some r \<Longrightarrow>
                 \<forall>t a cs. deref (XmlDocument s) p = Some (Element t a cs) \<longrightarrow> rows_direct cs"
    and eq: "(if elementsByTagName (deref (XmlDocument s) p) ROW_ELEMENT_NAME \<noteq> []
               \<and> length (elementsByTagName (deref (XmlDocument s) p) ROW_ELEMENT_NAME) > 0
             then remove
                    (s\<lparr>XmlDocument :=
                         removeChild (XmlDocument s) p
                           (elementsByTagName (deref (XmlDocument s) p) ROW_ELEMENT_NAME ! 0)\<rparr>)
                    p
             else Some s) = Some r"
  show "\<forall>t a cs. deref (XmlDocument s) p = Some (Element t a cs) \<longrightarrow> rows_direct cs"
  proof (intro allI impI)
    fix t a cs
    assume at: "deref (XmlDocument s) p = Some (Element t a cs)"
    then obtain root where root: "XmlDocument s = Some root"
      and nat: "node_at root p = Some (Element t a cs)" by (rule deref_SomeE)
    show "rows_direct cs"
    proof (cases "createList ROW_ELEMENT_NAME 0 cs")
      case Nil
      then show ?thesis by (rule createList_empty)
    next
      case (Cons q rest)
      with eq at
      have rec: "remove (s\<lparr>XmlDocument := removeChild (XmlDocument s) p q\<rparr>) p = Some r"
        by (simp add: elementsByTagName_def)
      have "q \<in> set (createList ROW_ELEMENT_NAME 0 cs)" using Cons by simp
      from createList_members [OF this] obtain j q' a' cs' where
        q: "q = j # q'" and j: "j < length cs"
        and sub: "node_at (cs ! j) q' = Some (Element ROW_ELEMENT_NAME a' cs')"
        by auto
      show ?thesis
      proof (cases q')
        case Nil
        let ?rm = "\<lambda>cs. take j cs @ drop (Suc j) cs"
        have "deref (XmlDocument (s\<lparr>XmlDocument := removeChild (XmlDocument s) p q\<rparr>)) p
                = Some (Element t a (?rm cs))"
          by (simp add: q Nil removeChild_def root deref_def update_children_at [OF nat])
        with IH [OF rec] have rd: "rows_direct (?rm cs)" by blast
        have row: "is_row (cs ! j)" using sub Nil by simp
        show ?thesis by (rule rows_direct_insert_nth [OF rd j row])
      next
        case (Cons i q'')
        then have "s\<lparr>XmlDocument := removeChild (XmlDocument s) p q\<rparr> = s"
          by (simp add: q removeChild_def)
        with IH [OF rec] at show ?thesis by simp
      qed
    qed
  qed
qed

lemma remove_characterised:
  assumes "deref (XmlDocument s) p = Some (Element t a cs)"
  shows "UpdateCompleteTable_remove s p =
           (if rows_direct cs
            then Some (s\<lparr>XmlDocument :=
                    map_option (update_children p (filter (\<lambda>c. \<not> is_row c))) (XmlDocument s)\<rparr>)
            else None)"
proof (cases "rows_direct cs")
  case True
  then show ?thesis by (simp add: remove_returns [OF assms])
next
  case False
  have "UpdateCompleteTable_remove s p = None"
  proof (cases "UpdateCompleteTable_remove s p")
    case (Some r)
    from remove_returns_only_if [OF Some] assms False show ?thesis by blast
  qed simp
  with False show ?thesis by simp
qed

subsection \<open>Finding a table and replacing its rows\<close>

lemma FindTableElement_find:
  "FindTableElement s X =
     List.find (\<lambda>p. attribute (toElement (deref (XmlDocument s) p)) ''name'' = X)
       (elementsByTagName (XmlDocument s) TABLE_ELEMENT_NAME)"
  by (simp add: FindTableElement_def FindTableElement_loop_eq Let_def)

lemma elementsByTagName_memberD:
  assumes "q \<in> set (elementsByTagName e tag)"
  obtains t a cs where "e = Some (Element t a cs)" "q \<in> set (createList tag 0 cs)"
proof (cases e)
  case None
  with assms show ?thesis by (simp add: elementsByTagName_def)
next
  case (Some n)
  with assms that show ?thesis by (cases n) (simp_all add: elementsByTagName_def)
qed

lemma update_children_id_fun: "update_children p (\<lambda>cs. cs) = (\<lambda>n. n)"
  by (rule ext) (rule update_children_id)

lemma FindTableElement_SomeD:
  assumes "FindTableElement s X = Some p"
  shows "p \<in> set (elementsByTagName (XmlDocument s) TABLE_ELEMENT_NAME)"
    and "attribute (deref (XmlDocument s) p) ''name'' = X"
    and "\<exists>a cs. deref (XmlDocument s) p = Some (Element TABLE_ELEMENT_NAME a cs)"
proof -
  from assms obtain i where
    i: "i < length (elementsByTagName (XmlDocument s) TABLE_ELEMENT_NAME)"
    and P: "attribute (toElement (deref (XmlDocument s)
              (elementsByTagName (XmlDocument s) TABLE_ELEMENT_NAME ! i))) ''name'' = X"
    and p: "p = elementsByTagName (XmlDocument s) TABLE_ELEMENT_NAME ! i"
    unfolding FindTableElement_find find_Some_iff by blast
  show mem: "p \<in> set (elementsByTagName (XmlDocument s) TABLE_ELEMENT_NAME)"
    using i p by simp
  show "attribute (deref (XmlDocument s) p) ''name'' = X"
    using P p toElement_member [OF mem] by simp
  show "\<exists>a cs. deref (XmlDocument s) p = Some (Element TABLE_ELEMENT_NAME a cs)"
    by (rule elementsByTagName_members [OF mem])
qed

lemma FindTableElement_update:
  assumes found: "FindTableElement s X = Some p1"
    and q: "q \<in> set (elementsByTagName (XmlDocument s) TABLE_ELEMENT_NAME)"
    and name: "attribute (deref (XmlDocument s) q) ''name'' = X"
  shows "FindTableElement (s\<lparr>XmlDocument := map_option (update_children q h) (XmlDocument s)\<rparr>) X
           = Some p1"
proof -
  from q obtain t a cs where doc: "XmlDocument s = Some (Element t a cs)"
    and qin: "q \<in> set (createList TABLE_ELEMENT_NAME 0 cs)"
    by (rule elementsByTagName_memberD)
  from createList_members [OF qin] obtain j q' a' cs' where
    qeq: "q = j # q'" and j: "j < length cs"
    and at: "node_at (cs ! j) q' = Some (Element TABLE_ELEMENT_NAME a' cs')"
    by auto
  have nm: "attribute (Some (Element TABLE_ELEMENT_NAME a' cs')) ''name'' = X"
    using name by (simp add: doc deref_def qeq j at)
  have "first_named TABLE_ELEMENT_NAME X 0 cs = Some p1"
    using found by (simp add: FindTableElement_first_named doc)
  from first_named_stable [OF this j at nm]
  have "first_named TABLE_ELEMENT_NAME X 0 (cs[j := update_children q' h (cs ! j)]) = Some p1" .
  then show ?thesis
    by (simp add: FindTableElement_first_named doc qeq j)
qed

lemma UpdateCompleteTable_rows_eq:
  "UpdateCompleteTable_rows w hs p row s =
     s\<lparr>XmlDocument :=
         map_option
           (update_children p
              (\<lambda>cs. cs @ map (\<lambda>r. CreateRowElement (UpdateCompleteTable_cells w r 0 []) hs)
                            [row..<rowCount w]))
           (XmlDocument s)\<rparr>"
proof (induction w hs p row s rule: UpdateCompleteTable_rows.induct)
  case (1 w hs p row s)
  show ?case
  proof (cases "row < rowCount w")
    case True
    show ?thesis
      using "1.IH" [OF True refl refl]
      by (subst UpdateCompleteTable_rows.simps)
        (simp add: True upt_conv_Cons Let_def appendChild_def option.map_comp comp_def
          update_children_compose)
  next
    case False
    then show ?thesis
      by (subst UpdateCompleteTable_rows.simps)
        (simp add: update_children_id_fun option.map_ident)
  qed
qed

lemma CreateRowElement_eq:
  "CreateRowElement rowData columnHeaders =
     Element ROW_ELEMENT_NAME []
       (map (\<lambda>k. Element CELL_ELEMENT_NAME [(''name'', columnHeaders ! k)]
                   [Text (if k < length rowData then rowData ! k else [])])
            [0..<length columnHeaders])"
  by (simp add: CreateRowElement_def createElement_def CreateRowElement_cells_eq)

lemma is_row_CreateRowElement: "is_row (CreateRowElement rowData columnHeaders)"
  by (simp add: CreateRowElement_eq)

lemma UpdateCompleteTable_found:
  assumes "FileLoaded s" "X \<noteq> []" "FindTableElement s X = Some p"
    and at: "deref (XmlDocument s) p = Some (Element t a cs)"
  shows "UpdateCompleteTable s X (Some w) =
           (if rows_direct cs
            then Some (True,
              s\<lparr>XmlDocument :=
                  map_option
                    (update_children p
                       (\<lambda>cs. filter (\<lambda>c. \<not> is_row c) cs
                          @ map (\<lambda>r. CreateRowElement (UpdateCompleteTable_cells w r 0 [])
                                        (UpdateCompleteTable_headers w 0 []))
                                [0..<rowCount w]))
                    (XmlDocument s)\<rparr>)
            else None)"
  using assms(1-3)
  by (simp add: UpdateCompleteTable_def remove_characterised [OF at] UpdateCompleteTable_rows_eq
      option.map_comp comp_def update_children_compose)

lemma rows_direct_replaced:
  assumes "rows_direct cs" and "list_all is_row new"
  shows "rows_direct (filter (\<lambda>c. \<not> is_row c) cs @ new)"
  using assms by (auto simp: rows_direct_def list_all_iff)

lemma UpdateCompleteTable_again:
  assumes "UpdateCompleteTable s X w = Some (ok, s1)"
  shows "UpdateCompleteTable s1 X w = Some (ok, s1)"
proof (cases "\<not> FileLoaded s \<or> X = [] \<or> w = None \<or> FindTableElement s X = None")
  case True
  with assms have "ok = False" "s1 = s"
    by (auto simp: UpdateCompleteTable_def split: if_splits)
  with assms show ?thesis by simp
next
  case False
  then obtain g p where loaded: "FileLoaded s" and X: "X \<noteq> []" and w: "w = Some g"
    and found: "FindTableElement s X = Some p" by auto
  from FindTableElement_SomeD [OF found] obtain a cs where
    mem: "p \<in> set (elementsByTagName (XmlDocument s) TABLE_ELEMENT_NAME)"
    and name: "attribute (deref (XmlDocument s) p) ''name'' = X"
    and at: "deref (XmlDocument s) p = Some (Element TABLE_ELEMENT_NAME a cs)"
    by blast
  from at obtain root where root: "XmlDocument s = Some root"
    and nat: "node_at root p = Some (Element TABLE_ELEMENT_NAME a cs)" by (rule deref_SomeE)
  let ?new = "map (\<lambda>r. CreateRowElement (UpdateCompleteTable_cells g r 0 [])
                          (UpdateCompleteTable_headers g 0 [])) [0..<rowCount g]"
  let ?K = "\<lambda>cs. filter (\<lambda>c. \<not> is_row c) cs @ ?new"
  from assms have rd: "rows_direct cs" and ok: "ok = True"
    and s1: "s1 = s\<lparr>XmlDocument := map_option (update_children p ?K) (XmlDocument s)\<rparr>"
    unfolding w UpdateCompleteTable_found [OF loaded X found at]
    by (auto split: if_splits)
  have loaded1: "FileLoaded s1" using loaded s1 by simp
  have found1: "FindTableElement s1 X = Some p"
    unfolding s1 by (rule FindTableElement_update [OF found mem name])
  have at1: "deref (XmlDocument s1) p = Some (Element TABLE_ELEMENT_NAME a (?K cs))"
    by (simp add: s1 root deref_def update_children_at [OF nat])
  have new: "list_all is_row ?new"
    by (simp add: list_all_iff is_row_CreateRowElement)
  have rd1: "rows_direct (?K cs)"
    by (rule rows_direct_replaced [OF rd new])
  have KK: "?K (?K cs) = ?K cs"
    using new by (simp add: list_all_iff filter_empty_conv)
  have "update_children p ?K (update_children p ?K root) = update_children p (\<lambda>cs. ?K (?K cs)) root"
    by (rule update_children_compose)
  also have "\<dots> = update_children p ?K root"
    by (rule update_children_cong [OF nat]) (rule KK)
  finally have same: "update_children p ?K (update_children p ?K root) = update_children p ?K root" .
  show ?thesis
    unfolding w UpdateCompleteTable_found [OF loaded1 X found1 at1]
    using rd1 ok by (simp add: s1 root same)
qed

subsection \<open>Headers and rows as list functions\<close>

lemma nodeList_at_member:
  "i < length (elementsByTagName e tag) \<Longrightarrow>
     toElement (nodeList_at e (elementsByTagName e tag) i) = deref e (elementsByTagName e tag ! i)"
  by (simp add: nodeList_at_def toElement_member [OF nth_mem])

lemma map_index:
  "map (\<lambda>k. f (xs ! k)) [0..<length xs] = map f xs"
  by (rule nth_equalityI) simp_all

lemma map_index_enumerate:
  "map (\<lambda>i. f i (xs ! i)) [0..<length xs] = map (\<lambda>(i, x). f i x) (enumerate 0 xs)"
  by (rule nth_equalityI) (simp_all add: nth_enumerate_eq)

lemma ExtractColumnHeaders_eq:
  "ExtractColumnHeaders tableElement =
     (case elementsByTagName tableElement ROW_ELEMENT_NAME of
        [] \<Rightarrow> []
      | r # later \<Rightarrow>
          map (\<lambda>(i, c).
                 if attribute (deref (deref tableElement r) c) ''name'' = []
                 then ''Column_'' @ number (i + 1)
                 else attribute (deref (deref tableElement r) c) ''name'')
              (enumerate 0 (elementsByTagName (deref tableElement r) CELL_ELEMENT_NAME)))"
proof (cases "elementsByTagName tableElement ROW_ELEMENT_NAME")
  case Nil
  then show ?thesis by (simp add: ExtractColumnHeaders_def)
next
  case (Cons r later)
  then have r: "toElement (nodeList_at tableElement (elementsByTagName tableElement ROW_ELEMENT_NAME) 0)
                  = deref tableElement r"
    using nodeList_at_member [of 0 tableElement ROW_ELEMENT_NAME] by simp
  let ?row = "deref tableElement r"
  let ?cells = "elementsByTagName ?row CELL_ELEMENT_NAME"
  have "ExtractColumnHeaders tableElement =
          map (\<lambda>j. let c = attribute (toElement (nodeList_at ?row ?cells j)) ''name''
                    in if c = [] then ''Column_'' @ number (j + 1) else c) [0..<length ?cells]"
    using Cons r by (simp add: ExtractColumnHeaders_def ExtractColumnHeaders_cells_eq Let_def)
  also have "\<dots> = map (\<lambda>j. if attribute (deref ?row (?cells ! j)) ''name'' = []
                            then ''Column_'' @ number (j + 1)
                            else attribute (deref ?row (?cells ! j)) ''name'') [0..<length ?cells]"
    by (rule map_cong) (simp_all add: nodeList_at_member Let_def)
  also have "\<dots> = map (\<lambda>(i, c). if attribute (deref ?row c) ''name'' = []
                            then ''Column_'' @ number (i + 1)
                            else attribute (deref ?row c) ''name'') (enumerate 0 ?cells)"
    by (rule map_index_enumerate)
  finally show ?thesis using Cons by simp
qed

lemma ExtractTableRows_eq:
  "ExtractTableRows tableElement =
     map (\<lambda>r. map (\<lambda>c. text_of (deref (deref tableElement r) c))
                  (elementsByTagName (deref tableElement r) CELL_ELEMENT_NAME))
         (elementsByTagName tableElement ROW_ELEMENT_NAME)"
proof -
  let ?rows = "elementsByTagName tableElement ROW_ELEMENT_NAME"
  have cells: "ExtractTableRows_cells e (elementsByTagName e CELL_ELEMENT_NAME) 0 [] =
          map (\<lambda>c. text_of (deref e c)) (elementsByTagName e CELL_ELEMENT_NAME)" for e
  proof -
    have "ExtractTableRows_cells e (elementsByTagName e CELL_ELEMENT_NAME) 0 [] =
            map (\<lambda>k. text_of (deref e (elementsByTagName e CELL_ELEMENT_NAME ! k)))
              [0..<length (elementsByTagName e CELL_ELEMENT_NAME)]"
      unfolding ExtractTableRows_cells_eq
      by (simp add: nodeList_at_member)
    with map_index [of "\<lambda>c. text_of (deref e c)" "elementsByTagName e CELL_ELEMENT_NAME"]
    show ?thesis by simp
  qed
  have "ExtractTableRows tableElement =
          map (\<lambda>k. map (\<lambda>c. text_of (deref (deref tableElement (?rows ! k)) c))
                        (elementsByTagName (deref tableElement (?rows ! k)) CELL_ELEMENT_NAME))
              [0..<length ?rows]"
    unfolding ExtractTableRows_def ExtractTableRows_rows_eq
    by (simp add: nodeList_at_member cells Let_def)
  with map_index [of "\<lambda>r. map (\<lambda>c. text_of (deref (deref tableElement r) c))
                              (elementsByTagName (deref tableElement r) CELL_ELEMENT_NAME)" ?rows]
  show ?thesis by simp
qed

lemma number_1 [simp]: "number (Suc 0) = ''1''"
  by (subst number.simps) (simp add: digit_def)

lemma number_2 [simp]: "number 2 = ''2''"
  by (subst number.simps) (simp add: digit_def)

subsection \<open>A table after its rows were replaced\<close>

text \<open>
  On a table with \<open>rows_direct\<close>, \<^verbatim>\<open>UpdateCompleteTable\<close> returns, and the table then
  reads as the grid: its rows are the rows of the grid, each with one value per column (the
  empty string where the grid has no item), and, unless the grid has no rows, its headers are
  the headers of the grid, with \<open>Column_n\<close> where the grid has no header item or an empty
  one.
\<close>

lemma createList_leaf_cells:
  "tag \<noteq> CELL_ELEMENT_NAME \<Longrightarrow>
     createList tag i (map (\<lambda>k. Element CELL_ELEMENT_NAME (a k) [Text (v k)]) ks) = []"
  by (induction ks arbitrary: i) simp_all

lemma map_upt_shift:
  "map f [0..<Suc n] = f 0 # map (\<lambda>k. f (Suc k)) [0..<n]"
  by (simp add: upt_conv_Cons map_Suc_upt [symmetric] del: upt_Suc)

lemma createList_cells_of_row:
  "createList CELL_ELEMENT_NAME i (map (\<lambda>k. Element CELL_ELEMENT_NAME (a k) [Text (v k)]) ks)
     = map (\<lambda>j. [i + j]) [0..<length ks]"
proof (induction ks arbitrary: i)
  case Nil
  show ?case by simp
next
  case (Cons k ks)
  show ?case
    using Cons [of "Suc i"] by (simp add: map_upt_shift del: upt_Suc)
qed

lemma row_is_not_cell: "ROW_ELEMENT_NAME \<noteq> CELL_ELEMENT_NAME"
  by (simp add: ROW_ELEMENT_NAME_def CELL_ELEMENT_NAME_def)

lemma createList_created_rows:
  "createList ROW_ELEMENT_NAME i (map (\<lambda>r. CreateRowElement (f r) hs) rs)
     = map (\<lambda>k. [i + k]) [0..<length rs]"
proof (induction rs arbitrary: i)
  case Nil
  show ?case by simp
next
  case (Cons r rs)
  show ?case
    using Cons [of "Suc i"]
    by (simp add: CreateRowElement_eq createList_leaf_cells [OF row_is_not_cell] map_upt_shift
        del: upt_Suc)
qed

lemma rows_after_replace:
  assumes "rows_direct cs"
  shows "elementsByTagName
           (Some (Element t a (filter (\<lambda>c. \<not> is_row c) cs
                                 @ map (\<lambda>r. CreateRowElement (f r) hs) rs)))
           ROW_ELEMENT_NAME
         = map (\<lambda>k. [length (filter (\<lambda>c. \<not> is_row c) cs) + k]) [0..<length rs]"
proof -
  have "rows_direct (filter (\<lambda>c. \<not> is_row c) cs)"
    using assms by (auto simp: rows_direct_def list_all_iff)
  moreover have "filter is_row (filter (\<lambda>c. \<not> is_row c) cs) = []"
    by (simp add: filter_empty_conv)
  ultimately have "createList ROW_ELEMENT_NAME 0 (filter (\<lambda>c. \<not> is_row c) cs) = []"
    by (rule createList_no_rows)
  then show ?thesis
    by (simp add: elementsByTagName_def createList_append createList_created_rows)
qed

lemma created_row_cells:
  "elementsByTagName (Some (CreateRowElement rowData hs)) CELL_ELEMENT_NAME
     = map (\<lambda>j. [j]) [0..<length hs]"
  using createList_cells_of_row [of 0 "\<lambda>k. [(''name'', hs ! k)]"
      "\<lambda>k. if k < length rowData then rowData ! k else []" "[0..<length hs]"]
  by (simp add: CreateRowElement_eq elementsByTagName_def)

lemma created_row_texts:
  "ExtractTableRows_cells (Some (CreateRowElement rowData hs))
       (elementsByTagName (Some (CreateRowElement rowData hs)) CELL_ELEMENT_NAME) 0 []
     = map (\<lambda>j. if j < length rowData then rowData ! j else []) [0..<length hs]"
  unfolding created_row_cells ExtractTableRows_cells_eq
  by (simp add: nodeList_at_def deref_def CreateRowElement_eq toElement_def text_of_def)

lemma created_row_headers:
  "ExtractColumnHeaders_cells (Some (CreateRowElement rowData hs))
       (elementsByTagName (Some (CreateRowElement rowData hs)) CELL_ELEMENT_NAME) 0 []
     = map (\<lambda>j. if hs ! j = [] then ''Column_'' @ number (j + 1) else hs ! j) [0..<length hs]"
  unfolding created_row_cells ExtractColumnHeaders_cells_eq
  by (simp add: nodeList_at_def deref_def CreateRowElement_eq toElement_def attribute_def)

lemma extract_after_replace:
  assumes "rows_direct cs"
  shows "ExtractTableRows
           (Some (Element t a (filter (\<lambda>c. \<not> is_row c) cs
                                 @ map (\<lambda>r. CreateRowElement (f r) hs) rs)))
         = map (\<lambda>r. map (\<lambda>j. if j < length (f r) then f r ! j else []) [0..<length hs]) rs"
    and "ExtractColumnHeaders
           (Some (Element t a (filter (\<lambda>c. \<not> is_row c) cs
                                 @ map (\<lambda>r. CreateRowElement (f r) hs) rs)))
         = (if rs = [] then []
            else map (\<lambda>j. if hs ! j = [] then ''Column_'' @ number (j + 1) else hs ! j)
                   [0..<length hs])"
proof -
  let ?keep = "filter (\<lambda>c. \<not> is_row c) cs"
  let ?new = "map (\<lambda>r. CreateRowElement (f r) hs) rs"
  let ?T = "Some (Element t a (?keep @ ?new))"
  have rows: "elementsByTagName ?T ROW_ELEMENT_NAME = map (\<lambda>k. [length ?keep + k]) [0..<length rs]"
    by (rule rows_after_replace [OF assms])
  have at: "toElement (nodeList_at ?T (elementsByTagName ?T ROW_ELEMENT_NAME) k)
              = Some (CreateRowElement (f (rs ! k)) hs)" if "k < length rs" for k
    using that unfolding rows
    by (simp add: nodeList_at_def deref_def nth_append toElement_def CreateRowElement_eq)
  have "ExtractTableRows ?T
          = map (\<lambda>k. map (\<lambda>j. if j < length (f (rs ! k)) then f (rs ! k) ! j else [])
                         [0..<length hs]) [0..<length rs]"
    unfolding ExtractTableRows_def ExtractTableRows_rows_eq
    by (simp add: rows [THEN arg_cong, of length] at created_row_texts Let_def cong: map_cong)
  also have "\<dots> = map (\<lambda>r. map (\<lambda>j. if j < length (f r) then f r ! j else []) [0..<length hs]) rs"
    using map_index [of "\<lambda>r. map (\<lambda>j. if j < length (f r) then f r ! j else []) [0..<length hs]" rs]
    by simp
  finally show "ExtractTableRows ?T
         = map (\<lambda>r. map (\<lambda>j. if j < length (f r) then f r ! j else []) [0..<length hs]) rs" .
  show "ExtractColumnHeaders ?T
         = (if rs = [] then []
            else map (\<lambda>j. if hs ! j = [] then ''Column_'' @ number (j + 1) else hs ! j)
                   [0..<length hs])"
  proof (cases "rs = []")
    case True
    then show ?thesis using rows by (simp add: ExtractColumnHeaders_def)
  next
    case False
    then have pos: "0 < length rs" by simp
    have len: "length (elementsByTagName ?T ROW_ELEMENT_NAME) = length rs"
      unfolding rows by simp
    then have ne: "elementsByTagName ?T ROW_ELEMENT_NAME \<noteq> []"
      using pos by auto
    show ?thesis
      using False at [OF pos]
      by (simp add: ExtractColumnHeaders_def ne created_row_headers Let_def)
  qed
qed

lemma UpdateCompleteTable_reads_as_grid:
  assumes loaded: "FileLoaded s" and X: "X \<noteq> []" and found: "FindTableElement s X = Some p"
    and at: "deref (XmlDocument s) p = Some (Element t a cs)" and rd: "rows_direct cs"
  shows "\<exists>s'. UpdateCompleteTable s X (Some w) = Some (True, s')
          \<and> ExtractTableRows (deref (XmlDocument s') p)
              = map (\<lambda>r. map (\<lambda>c. case item w r c of Some cellText \<Rightarrow> cellText | None \<Rightarrow> [])
                             [0..<columnCount w])
                    [0..<rowCount w]
          \<and> ExtractColumnHeaders (deref (XmlDocument s') p)
              = (if rowCount w = 0 then []
                 else map (\<lambda>c. case horizontalHeaderItem w c of
                                  Some headerText \<Rightarrow>
                                    if headerText = [] then ''Column_'' @ number (c + 1)
                                    else headerText
                                | None \<Rightarrow> ''Column_'' @ number (c + 1))
                          [0..<columnCount w])"
proof -
  let ?f = "\<lambda>r. UpdateCompleteTable_cells w r 0 []"
  let ?hs = "UpdateCompleteTable_headers w 0 []"
  let ?K = "\<lambda>cs. filter (\<lambda>c. \<not> is_row c) cs @ map (\<lambda>r. CreateRowElement (?f r) ?hs) [0..<rowCount w]"
  let ?s' = "s\<lparr>XmlDocument := map_option (update_children p ?K) (XmlDocument s)\<rparr>"
  from at obtain root where root: "XmlDocument s = Some root"
    and nat: "node_at root p = Some (Element t a cs)" by (rule deref_SomeE)
  have call: "UpdateCompleteTable s X (Some w) = Some (True, ?s')"
    using rd by (simp add: UpdateCompleteTable_found [OF loaded X found at])
  have at': "deref (XmlDocument ?s') p = Some (Element t a (?K cs))"
    by (simp add: root deref_def update_children_at [OF nat])
  have len_f: "length (?f r) = columnCount w" for r
    by (simp add: UpdateCompleteTable_cells_eq)
  have len_hs: "length ?hs = columnCount w"
    by (simp add: UpdateCompleteTable_headers_eq)
  have f_nth: "?f r ! c = (case item w r c of Some cellText \<Rightarrow> cellText | None \<Rightarrow> [])"
    if "c < columnCount w" for r c
    using that by (simp add: UpdateCompleteTable_cells_eq)
  have hs_nth: "?hs ! c = (case horizontalHeaderItem w c of Some headerText \<Rightarrow> headerText
                           | None \<Rightarrow> ''Column_'' @ number (c + 1))"
    if "c < columnCount w" for c
    using that by (simp add: UpdateCompleteTable_headers_eq split: option.splits)
  have rows: "ExtractTableRows (deref (XmlDocument ?s') p)
      = map (\<lambda>r. map (\<lambda>c. case item w r c of Some cellText \<Rightarrow> cellText | None \<Rightarrow> [])
                     [0..<columnCount w]) [0..<rowCount w]"
    unfolding at' extract_after_replace(1) [OF rd] len_hs len_f
    by (simp add: f_nth cong: map_cong)
  have headers: "ExtractColumnHeaders (deref (XmlDocument ?s') p)
      = (if rowCount w = 0 then []
         else map (\<lambda>c. case horizontalHeaderItem w c of
                          Some headerText \<Rightarrow>
                            if headerText = [] then ''Column_'' @ number (c + 1) else headerText
                        | None \<Rightarrow> ''Column_'' @ number (c + 1))
                  [0..<columnCount w])"
    unfolding at' extract_after_replace(2) [OF rd] len_hs
    by (auto simp: hs_nth split: option.splits)
  from call rows headers show ?thesis by blast
qed

subsection \<open>Further facts about the operations\<close>

lemma FindTableElement_None:
  assumes "\<forall>p \<in> set (elementsByTagName (XmlDocument s) TABLE_ELEMENT_NAME).
             attribute (deref (XmlDocument s) p) ''name'' \<noteq> X"
  shows "FindTableElement s X = None"
  unfolding FindTableElement_find find_None_iff
  using assms by (auto simp: toElement_member)

lemma DeleteRowFromTable_out_of_range:
  assumes "rowIndex < 0
     \<or> (\<exists>tableElement. FindTableElement s tableName = Some tableElement
          \<and> rowIndex \<ge> int (length (elementsByTagName (deref (XmlDocument s) tableElement)
                                      ROW_ELEMENT_NAME)))"
  shows "DeleteRowFromTable s tableName rowIndex = (False, s)"
  using assms by (auto simp: DeleteRowFromTable_def)

lemma DeleteRowFromTable_child_row:
  assumes "FileLoaded s" "tableName \<noteq> []" "FindTableElement s tableName = Some tableElement"
    and "0 \<le> rowIndex"
    and "nat rowIndex < length (elementsByTagName (deref (XmlDocument s) tableElement)
                                  ROW_ELEMENT_NAME)"
    and "elementsByTagName (deref (XmlDocument s) tableElement) ROW_ELEMENT_NAME ! nat rowIndex = [k]"
  shows "DeleteRowFromTable s tableName rowIndex =
           (True, s\<lparr>XmlDocument :=
              map_option (update_children tableElement (\<lambda>cs. take k cs @ drop (Suc k) cs))
                (XmlDocument s)\<rparr>)"
  using assms by (auto simp: DeleteRowFromTable_def removeChild_def Let_def)

lemma ParseXMLStructure_loop_eq:
  "ParseXMLStructure_loop rootElement tableNodes i names =
     names @ filter (\<lambda>n. n \<noteq> [])
               (map (\<lambda>p. attribute (toElement (deref rootElement p)) ''name'') (drop i tableNodes))"
proof (induction rootElement tableNodes i names rule: ParseXMLStructure_loop.induct)
  case (1 rootElement tableNodes i names)
  show ?case
  proof (cases "i < length tableNodes")
    case True
    let ?e = "toElement (nodeList_at rootElement tableNodes i)"
    have e: "?e = toElement (deref rootElement (tableNodes ! i))"
      using True by (simp add: nodeList_at_def)
    have null: "attribute ?e ''name'' = []" if "?e = None"
      using that by (simp add: attribute_def)
    show ?thesis
    proof (cases "?e \<noteq> None \<and> attribute ?e ''name'' \<noteq> []")
      case yes: True
      then show ?thesis
        using True "1.IH"(1) [OF True refl _ refl] e
        by (subst ParseXMLStructure_loop.simps)
          (simp add: Cons_nth_drop_Suc [symmetric] Let_def)
    next
      case no: False
      then have empty: "attribute ?e ''name'' = []" using null by blast
      show ?thesis
      proof (cases "?e = None")
        case True
        with \<open>i < length tableNodes\<close> "1.IH"(3) [OF \<open>i < length tableNodes\<close> refl] e empty
        show ?thesis
          by (subst ParseXMLStructure_loop.simps)
            (simp add: Cons_nth_drop_Suc [symmetric] Let_def)
      next
        case False
        with \<open>i < length tableNodes\<close> "1.IH"(2) [OF \<open>i < length tableNodes\<close> refl _ refl] e empty
        show ?thesis
          by (subst ParseXMLStructure_loop.simps)
            (simp add: Cons_nth_drop_Suc [symmetric] Let_def)
      qed
    qed
  next
    case False
    then show ?thesis
      by (subst ParseXMLStructure_loop.simps) simp
  qed
qed

lemma LoadXMLFile_not_opened:
  assumes "filePath = [] \<or> files filePath = None"
  shows "\<not> fst (LoadXMLFile setContent files filePath s)"
    and "fst (snd (LoadXMLFile setContent files filePath s)) = s"
  using assms by (auto simp: LoadXMLFile_def)

lemma LoadXMLFile_failure_keeps:
  assumes "\<not> fst (LoadXMLFile setContent files filePath s)"
  shows "CurrentFilePath (fst (snd (LoadXMLFile setContent files filePath s))) = CurrentFilePath s"
    and "AvailableTableNames (fst (snd (LoadXMLFile setContent files filePath s)))
           = AvailableTableNames s"
    and "FileLoaded (fst (snd (LoadXMLFile setContent files filePath s))) = FileLoaded s"
  using assms
  by (auto simp: LoadXMLFile_def Let_def split: if_splits option.splits parse_result.splits)

lemma elementsByTagName_appended:
  "elementsByTagName (Some (Element t a (cs @ [n]))) tag =
     elementsByTagName (Some (Element t a cs)) tag
       @ map ((#) (length cs)) (case n of Element t' a' cs' \<Rightarrow>
           (if t' = tag then [[]] else []) @ createList tag 0 cs' | _ \<Rightarrow> [])"
  by (cases n) (simp_all add: elementsByTagName_def createList_append)

text \<open>
  Saving and opening again: the worker then holds what Qt's parser makes of what Qt's
  serializer wrote, and nothing of the worker's own enters in between. Whether that tree
  gives the same table names, headers and rows as the tree that was saved (claim C2) is a
  property of those two Qt functions alone; it is not decided here.
\<close>

lemma save_then_open:
  assumes "FileLoaded s" and "CurrentFilePath s \<noteq> []" and "writable (CurrentFilePath s)"
    and "setContent (toString (XmlDocument s)) = Parsed d" and "d \<noteq> None"
  shows "fst (SaveXMLFile toString writable files s)"
    and "fst (LoadXMLFile setContent (snd (SaveXMLFile toString writable files s))
               (CurrentFilePath s) s)"
    and "XmlDocument (fst (snd (LoadXMLFile setContent
               (snd (SaveXMLFile toString writable files s)) (CurrentFilePath s) s))) = d"
  using assms
  by (simp_all add: SaveXMLFile_def LoadXMLFile_def ValidateXMLStructure_def
      ParseXMLStructure_def Let_def)

subsection \<open>Deleting the first row of a flat table\<close>

text \<open>
  On a table with \<open>rows_flat\<close> that has a row, \<^verbatim>\<open>DeleteRowFromTable\<close> with index 0
  succeeds, the table has one row less, and its rows are the former rows without the first,
  in their order and with their contents.
\<close>

lemma rows_flat_Cons:
  "rows_flat (c # cs) \<longleftrightarrow> elementsByTagName (Some c) ROW_ELEMENT_NAME = [] \<and> rows_flat cs"
  by (simp add: rows_flat_def)

lemma createList_flat:
  "rows_flat cs \<Longrightarrow>
     createList ROW_ELEMENT_NAME i cs = map (\<lambda>k. [i + k]) (filter (\<lambda>k. is_row (cs ! k)) [0..<length cs])"
proof (induction cs arbitrary: i)
  case Nil
  show ?case by simp
next
  case (Cons c cs)
  from Cons.prems have c: "elementsByTagName (Some c) ROW_ELEMENT_NAME = []" and cs: "rows_flat cs"
    by (simp_all add: rows_flat_Cons)
  have upt: "[0..<length (c # cs)] = 0 # map Suc [0..<length cs]"
    by (simp add: upt_conv_Cons map_Suc_upt del: upt_Suc)
  have rest: "createList ROW_ELEMENT_NAME (Suc i) cs
                = map (\<lambda>k. [i + k]) (filter (\<lambda>k. is_row ((c # cs) ! k)) (map Suc [0..<length cs]))"
    using Cons.IH [OF cs, of "Suc i"] by (simp add: filter_map comp_def)
  show ?case
    unfolding upt using c rest
    by (cases c) (simp_all add: elementsByTagName_def)
qed

lemma filter_nth_upt:
  "map ((!) cs) (filter (\<lambda>k. P (cs ! k)) [0..<length cs]) = filter P cs"
proof -
  have "filter P (map ((!) cs) [0..<length cs]) = map ((!) cs) (filter (\<lambda>k. P (cs ! k)) [0..<length cs])"
    by (simp add: filter_map comp_def)
  then show ?thesis by (simp add: map_nth)
qed

lemma ExtractTableRows_flat:
  assumes "rows_flat cs"
  shows "ExtractTableRows (Some (Element t a cs))
           = map (\<lambda>c. map (\<lambda>q. text_of (deref (Some c) q))
                          (elementsByTagName (Some c) CELL_ELEMENT_NAME))
                 (filter is_row cs)"
proof -
  let ?g = "\<lambda>c. map (\<lambda>q. text_of (deref (Some c) q)) (elementsByTagName (Some c) CELL_ELEMENT_NAME)"
  let ?ks = "filter (\<lambda>k. is_row (cs ! k)) [0..<length cs]"
  have "ExtractTableRows (Some (Element t a cs)) = map (\<lambda>k. ?g (cs ! k)) ?ks"
    unfolding ExtractTableRows_eq
    by (simp add: elementsByTagName_def [of "Some (Element t a cs)"] createList_flat [OF assms]
        deref_def comp_def)
  also have "\<dots> = map ?g (map ((!) cs) ?ks)"
    by (simp add: comp_def)
  also have "\<dots> = map ?g (filter is_row cs)"
    by (simp only: filter_nth_upt)
  finally show ?thesis .
qed

lemma length_rows_flat:
  assumes "rows_flat cs"
  shows "length (elementsByTagName (Some (Element t a cs)) ROW_ELEMENT_NAME)
           = length (filter is_row cs)"
proof -
  have "length (filter is_row cs) = length (map ((!) cs) (filter (\<lambda>k. is_row (cs ! k)) [0..<length cs]))"
    by (simp only: filter_nth_upt)
  then show ?thesis
    by (simp add: elementsByTagName_def createList_flat [OF assms])
qed

lemma first_row_flat:
  "rows_flat cs \<Longrightarrow> filter is_row cs \<noteq> [] \<Longrightarrow>
     \<exists>k rest. createList ROW_ELEMENT_NAME i cs = [i + k] # rest \<and> k < length cs
        \<and> is_row (cs ! k) \<and> filter is_row (take k cs) = []"
proof (induction cs arbitrary: i)
  case Nil
  then show ?case by simp
next
  case (Cons c cs)
  from Cons.prems have c: "elementsByTagName (Some c) ROW_ELEMENT_NAME = []" and cs: "rows_flat cs"
    by (simp_all add: rows_flat_Cons)
  show ?case
  proof (cases "is_row c")
    case True
    then obtain a' cs' where "c = Element ROW_ELEMENT_NAME a' cs'" by (cases c) auto
    then show ?thesis by (intro exI [of _ 0]) simp
  next
    case False
    with Cons.prems have ne: "filter is_row cs \<noteq> []" by simp
    from Cons.IH [OF cs ne, of "Suc i"] obtain k rest where
      k: "createList ROW_ELEMENT_NAME (Suc i) cs = [Suc i + k] # rest" "k < length cs"
        "is_row (cs ! k)" "filter is_row (take k cs) = []"
      by blast
    have "createList ROW_ELEMENT_NAME i (c # cs) = createList ROW_ELEMENT_NAME (Suc i) cs"
      using False c by (cases c) (simp_all add: elementsByTagName_def)
    with k False show ?thesis by (intro exI [of _ "Suc k"]) simp
  qed
qed

lemma rows_flat_remove_nth: "rows_flat cs \<Longrightarrow> rows_flat (take k cs @ drop (Suc k) cs)"
  by (auto simp: rows_flat_def list_all_iff dest: in_set_takeD in_set_dropD)

lemma DeleteRowFromTable_first_row:
  assumes loaded: "FileLoaded s" and X: "X \<noteq> []" and found: "FindTableElement s X = Some p"
    and at: "deref (XmlDocument s) p = Some (Element t a cs)" and flat: "rows_flat cs"
    and some: "elementsByTagName (deref (XmlDocument s) p) ROW_ELEMENT_NAME \<noteq> []"
  shows "\<exists>s'. DeleteRowFromTable s X 0 = (True, s')
          \<and> Suc (length (elementsByTagName (deref (XmlDocument s') p) ROW_ELEMENT_NAME))
              = length (elementsByTagName (deref (XmlDocument s) p) ROW_ELEMENT_NAME)
          \<and> ExtractTableRows (deref (XmlDocument s') p)
              = tl (ExtractTableRows (deref (XmlDocument s) p))"
proof -
  from at obtain root where root: "XmlDocument s = Some root"
    and nat: "node_at root p = Some (Element t a cs)" by (rule deref_SomeE)
  have ne: "filter is_row cs \<noteq> []"
    using some length_rows_flat [OF flat, of t a] unfolding at by auto
  from first_row_flat [OF flat ne, of 0] obtain k rest where
    first: "createList ROW_ELEMENT_NAME 0 cs = [k] # rest" and k: "k < length cs"
    and row: "is_row (cs ! k)" and before: "filter is_row (take k cs) = []"
    by auto
  let ?cs' = "take k cs @ drop (Suc k) cs"
  let ?s' = "s\<lparr>XmlDocument :=
                map_option (update_children p (\<lambda>cs. take k cs @ drop (Suc k) cs)) (XmlDocument s)\<rparr>"
  have call: "DeleteRowFromTable s X 0 = (True, ?s')"
    using loaded X found first
    by (simp add: DeleteRowFromTable_def at elementsByTagName_def removeChild_def)
  have at': "deref (XmlDocument ?s') p = Some (Element t a ?cs')"
    by (simp add: root deref_def update_children_at [OF nat])
  have flat': "rows_flat ?cs'" by (rule rows_flat_remove_nth [OF flat])
  have split: "filter is_row cs = filter is_row (take k cs @ cs ! k # drop (Suc k) cs)"
    by (rule arg_cong [OF id_take_nth_drop [OF k]])
  then have rows_cs: "filter is_row cs = cs ! k # filter is_row (drop (Suc k) cs)"
    using before row by simp
  have rows_cs': "filter is_row ?cs' = filter is_row (drop (Suc k) cs)"
    using before by simp
  have count: "Suc (length (elementsByTagName (deref (XmlDocument ?s') p) ROW_ELEMENT_NAME))
              = length (elementsByTagName (deref (XmlDocument s) p) ROW_ELEMENT_NAME)"
    unfolding at at' length_rows_flat [OF flat] length_rows_flat [OF flat'] rows_cs' 
    by (simp add: rows_cs)
  have rows: "ExtractTableRows (deref (XmlDocument ?s') p)
              = tl (ExtractTableRows (deref (XmlDocument s) p))"
    unfolding at at' ExtractTableRows_flat [OF flat] ExtractTableRows_flat [OF flat'] rows_cs'
    by (simp add: rows_cs)
  from call count rows show ?thesis by blast
qed

subsection \<open>The example data\<close>

lemmas example_simps =
  people_def people_document_def elementsByTagName_def deref_def attribute_def toElement_def
  TABLE_ELEMENT_NAME_def ROW_ELEMENT_NAME_def CELL_ELEMENT_NAME_def

lemma people_tables:
  "elementsByTagName (XmlDocument people) TABLE_ELEMENT_NAME = [[0], [1], [2], [3]]"
  by (simp add: example_simps)

lemma people_find: "FindTableElement people ''People'' = Some [0]"
  by (simp add: FindTableElement_first_named people_def people_document_def attribute_def
      TABLE_ELEMENT_NAME_def)

lemma upt_2: "[0..<2] = [0, Suc 0]"
  by (simp add: upt_rec)

lemma people_update:
  "UpdateCompleteTable people ''People'' (Some example_grid) = Some (True, people_updated)"
proof -
  have loaded: "FileLoaded people" by (simp add: people_def)
  have at: "deref (XmlDocument people) [0] =
      Some (Element ''table'' [(''name'', ''People'')]
          [Element ''row'' []
             [Element ''cell'' [(''name'', ''Name'')] [Text ''Ann''],
              Element ''cell'' [(''name'', ''Age'')] [Text ''30'']],
           Element ''row'' []
             [Element ''cell'' [(''name'', ''Name'')] [Text ''Bob'']]])"
    by (simp add: people_def people_document_def deref_def)
  show ?thesis
    unfolding UpdateCompleteTable_found [OF loaded _ people_find at, simplified]
    by (simp add: rows_direct_def ROW_ELEMENT_NAME_def CELL_ELEMENT_NAME_def people_updated_def
        people_def people_document_def example_grid_def UpdateCompleteTable_headers_eq
        UpdateCompleteTable_cells_eq CreateRowElement_eq upt_2)
qed

lemma grouped_find: "FindTableElement people ''Grouped'' = Some [3]"
  by (simp add: FindTableElement_first_named people_def people_document_def attribute_def
      TABLE_ELEMENT_NAME_def)

lemma grouped_at:
  "deref (XmlDocument people) [3] =
     Some (Element ''table'' [(''name'', ''Grouped'')]
            [Element ''group'' []
               [Element ''row'' []
                  [Element ''cell'' [(''name'', ''Name'')] [Text ''Dee'']]]])"
  by (simp add: people_def people_document_def deref_def)

lemma grouped_rows:
  "elementsByTagName (deref (XmlDocument people) [3]) ROW_ELEMENT_NAME = [[0, 0]]"
  by (simp add: grouped_at elementsByTagName_def ROW_ELEMENT_NAME_def)

lemma people_opened:
  "fst (LoadXMLFile example_setContent example_files ''people.xml'' XMLWorker_new)"
  "fst (snd (LoadXMLFile example_setContent example_files ''people.xml'' XMLWorker_new)) = people"
  by (simp_all add: LoadXMLFile_def example_files_def example_setContent_def Let_def
      ValidateXMLStructure_def ParseXMLStructure_def ParseXMLStructure_loop_eq XMLWorker_new_def
      people_def people_document_def elementsByTagName_def TABLE_ELEMENT_NAME_def deref_def
      toElement_def attribute_def)

lemma broken_result:
  "LoadXMLFile example_setContent example_files ''broken.xml'' s =
     (False, s\<lparr>XmlDocument := Some (Element ''database'' [] [])\<rparr>,
      [[Literal ''Error: XML parsing failed at line'', Number 1, Literal ''column'', Number 17,
        Literal '':'', QStringItem ''unexpected end of file'']])"
  by (simp add: LoadXMLFile_def example_files_def example_setContent_def)

subsection \<open>Replacing the rows twice\<close>

text \<open>
  \<^verbatim>\<open>UpdateCompleteTable\<close> returns for a table that it finds exactly when \<open>rows_direct\<close>
  holds of the table's children. On such a table two calls in succession with the same name
  and the same grid both return, and the second leaves the worker exactly as the first left
  it. More generally, whenever a first call has returned, a second call returns the same
  result and the same worker, so the headers and rows extracted from any element are the
  same after two calls as after one.
\<close>

lemma UpdateCompleteTable_returns_iff:
  assumes "FileLoaded s" and "tableName \<noteq> []"
    and "FindTableElement s tableName = Some tableElement"
    and "deref (XmlDocument s) tableElement = Some (Element t a cs)"
  shows "(\<exists>result. UpdateCompleteTable s tableName (Some w) = Some result) \<longleftrightarrow> rows_direct cs"
  by (auto simp: UpdateCompleteTable_found [OF assms])

lemma UpdateCompleteTable_twice_on_direct_rows:
  assumes "FileLoaded s" and "tableName \<noteq> []"
    and "FindTableElement s tableName = Some tableElement"
    and "deref (XmlDocument s) tableElement = Some (Element t a cs)"
    and "rows_direct cs"
  shows "\<exists>s1. UpdateCompleteTable s tableName (Some w) = Some (True, s1)
            \<and> UpdateCompleteTable s1 tableName (Some w) = Some (True, s1)"
proof -
  from assms(5) obtain s1 where first: "UpdateCompleteTable s tableName (Some w) = Some (True, s1)"
    by (simp add: UpdateCompleteTable_found [OF assms(1-4)])
  from UpdateCompleteTable_again [OF first] first show ?thesis by blast
qed

lemma UpdateCompleteTable_twice_is_once:
  assumes "UpdateCompleteTable s tableName tableWidget = Some (ok, s1)"
  shows "\<exists>s2. UpdateCompleteTable s1 tableName tableWidget = Some (ok, s2)
            \<and> s2 = s1
            \<and> ExtractColumnHeaders (deref (XmlDocument s2) tableElement)
                = ExtractColumnHeaders (deref (XmlDocument s1) tableElement)
            \<and> ExtractTableRows (deref (XmlDocument s2) tableElement)
                = ExtractTableRows (deref (XmlDocument s1) tableElement)"
  using UpdateCompleteTable_again [OF assms] by simp

text \<open>
  At the worker \<open>people\<close>, the table \<open>People\<close> and the example grid: the first call returns
  \<open>people_updated\<close>, the second returns it again, and the table then reads as the grid.
\<close>

lemma UpdateCompleteTable_twice_is_once_people:
  "UpdateCompleteTable people ''People'' (Some example_grid) = Some (True, people_updated)
   \<and> UpdateCompleteTable people_updated ''People'' (Some example_grid) = Some (True, people_updated)
   \<and> ExtractColumnHeaders (deref (XmlDocument people_updated) [0]) = [''Name'', ''Age'']
   \<and> ExtractTableRows (deref (XmlDocument people_updated) [0])
       = [[''Ann'', ''31''], [''Bob'', ''25'']]"
proof -
  from UpdateCompleteTable_twice_is_once [OF people_update]
  have "UpdateCompleteTable people_updated ''People'' (Some example_grid)
          = Some (True, people_updated)" by simp
  moreover have "ExtractColumnHeaders (deref (XmlDocument people_updated) [0]) = [''Name'', ''Age'']"
    by (simp add: ExtractColumnHeaders_eq people_updated_def elementsByTagName_def deref_def
        ROW_ELEMENT_NAME_def CELL_ELEMENT_NAME_def attribute_def enumerate_eq_zip)
  moreover have "ExtractTableRows (deref (XmlDocument people_updated) [0])
       = [[''Ann'', ''31''], [''Bob'', ''25'']]"
    by (simp add: ExtractTableRows_eq people_updated_def elementsByTagName_def deref_def
        ROW_ELEMENT_NAME_def CELL_ELEMENT_NAME_def text_of_def)
  ultimately show ?thesis using people_update by simp
qed

section \<open>The claims\<close>

subsection \<open>Opening a file that cannot be parsed\<close>

text \<open>
  Claim C1 says that an Open that fails for any reason leaves the document, the table names,
  the file path and the loaded flag as they were. \<^verbatim>\<open>LoadXMLFile\<close> keeps the
  three other members on every failure (\<open>LoadXMLFile_failure_keeps\<close>) and keeps the document
  when the path is empty or the file cannot be opened (\<open>LoadXMLFile_not_opened\<close>). But it
  parses into the worker's own \<^verbatim>\<open>XmlDocument\<close>, so a file that does not parse costs the
  worker the document it had: below, the worker that has opened \<^verbatim>\<open>people.xml\<close> is asked
  to open \<^verbatim>\<open>broken.xml\<close>; the call fails, and the document is then the bare root element
  the parser had built, while path, table names and flag still describe \<^verbatim>\<open>people.xml\<close>.
\<close>

theorem LoadXMLFile_failed_parse_replaces_document:
  "fst (LoadXMLFile example_setContent example_files ''people.xml'' XMLWorker_new)
   \<and> fst (snd (LoadXMLFile example_setContent example_files ''people.xml'' XMLWorker_new)) = people
   \<and> \<not> fst (LoadXMLFile example_setContent example_files ''broken.xml'' people)
   \<and> fst (snd (LoadXMLFile example_setContent example_files ''broken.xml'' people))
       = people\<lparr>XmlDocument := Some (Element ''database'' [] [])\<rparr>
   \<and> XmlDocument people \<noteq> Some (Element ''database'' [] [])"
  by (simp add: people_opened broken_result) (simp add: people_def people_document_def)

text \<open>
  The same call, read through the members: the document differs from the one before the
  call, the path and the flag do not.
\<close>

theorem LoadXMLFile_failed_parse_replaces_document_witness:
  "XmlDocument (fst (snd (LoadXMLFile example_setContent example_files ''broken.xml'' people)))
     \<noteq> XmlDocument people
   \<and> CurrentFilePath (fst (snd (LoadXMLFile example_setContent example_files ''broken.xml'' people)))
       = ''people.xml''
   \<and> FileLoaded (fst (snd (LoadXMLFile example_setContent example_files ''broken.xml'' people)))"
proof -
  from LoadXMLFile_failed_parse_replaces_document
  have r: "fst (snd (LoadXMLFile example_setContent example_files ''broken.xml'' people))
             = people\<lparr>XmlDocument := Some (Element ''database'' [] [])\<rparr>"
    and d: "XmlDocument people \<noteq> Some (Element ''database'' [] [])"
    by blast+
  show ?thesis
    unfolding r using d by (simp add: people_def)
qed

subsection \<open>What the caller learns about a parse error\<close>

text \<open>
  Claim C3 says that for malformed XML the parser's line, column and message are carried in
  the error value returned to the caller. \<^verbatim>\<open>LoadXMLFile\<close> returns a \<^verbatim>\<open>bool\<close> and stores
  the diagnostics in no member: two files that the parser rejects with different messages
  at different positions give the same return value and leave the same worker.
\<close>

theorem LoadXMLFile_result_hides_diagnostics:
  "example_files ''broken.xml'' = Some ''<database><table''
   \<and> example_files ''mismatch.xml'' = Some ''<database></table>''
   \<and> example_setContent ''<database><table''
       = ParseFailed ''unexpected end of file'' 1 17 (Some (Element ''database'' [] []))
   \<and> example_setContent ''<database></table>''
       = ParseFailed ''tag mismatch'' 1 19 (Some (Element ''database'' [] []))
   \<and> fst (LoadXMLFile example_setContent example_files ''broken.xml'' people)
       = fst (LoadXMLFile example_setContent example_files ''mismatch.xml'' people)
   \<and> fst (snd (LoadXMLFile example_setContent example_files ''broken.xml'' people))
       = fst (snd (LoadXMLFile example_setContent example_files ''mismatch.xml'' people))"
  by (simp add: LoadXMLFile_def example_files_def example_setContent_def)

text \<open>
  Claim C3 as the code has it: for every file that can be read and that the parser rejects,
  \<^verbatim>\<open>LoadXMLFile\<close> fails, that is, it returns \<open>False\<close>; the parser's line, column and
  message go into one line of debug output and nowhere else, and the document is what the
  parser left.
\<close>

theorem LoadXMLFile_parse_error_only_logged:
  assumes "filePath \<noteq> []" and "files filePath = Some xml"
    and "setContent xml = ParseFailed errorMessage errorLine errorColumn remains"
  shows "LoadXMLFile setContent files filePath s =
           (False, s\<lparr>XmlDocument := remains\<rparr>,
            [[Literal ''Error: XML parsing failed at line'', Number errorLine,
              Literal ''column'', Number errorColumn, Literal '':'',
              QStringItem errorMessage]])"
  using assms by (simp add: LoadXMLFile_def)

text \<open>
The theorem at \<^verbatim>\<open>mismatch.xml\<close>, opened by the worker \<open>people\<close>.
\<close>

theorem LoadXMLFile_parse_error_only_logged_witness:
  "''mismatch.xml'' \<noteq> [] \<and> example_files ''mismatch.xml'' = Some ''<database></table>''
   \<and> example_setContent ''<database></table>''
       = ParseFailed ''tag mismatch'' 1 19 (Some (Element ''database'' [] []))
   \<and> LoadXMLFile example_setContent example_files ''mismatch.xml'' people =
       (False, people\<lparr>XmlDocument := Some (Element ''database'' [] [])\<rparr>,
        [[Literal ''Error: XML parsing failed at line'', Number 1, Literal ''column'', Number 19,
          Literal '':'', QStringItem ''tag mismatch'']])"
proof -
  have a: "''mismatch.xml'' \<noteq> []" by simp
  have b: "example_files ''mismatch.xml'' = Some ''<database></table>''"
    by (simp add: example_files_def)
  have c: "example_setContent ''<database></table>''
       = ParseFailed ''tag mismatch'' 1 19 (Some (Element ''database'' [] []))"
    by (simp add: example_setContent_def)
  from LoadXMLFile_parse_error_only_logged
         [of "''mismatch.xml''" example_files "''<database></table>''" example_setContent
            "''tag mismatch''" 1 19 "Some (Element ''database'' [] [])" people, OF a b c]
       a b c
  show ?thesis by blast
qed

subsection \<open>Tables that share a name\<close>

text \<open>
  Claim C4. Whenever some table element \<open>q\<close> has the \<^verbatim>\<open>name\<close> attribute \<open>X\<close>,
  \<^verbatim>\<open>FindTableElement\<close> returns the first element of the list of table elements (which is in
  document order) whose name is \<open>X\<close>: the one at the index \<open>i\<close> before which no table has
  that name. It is a function of the document, so every call on the same document returns
  the same handle, and it returns that handle also after the children of \<open>q\<close> have been
  changed in any way (\<open>h\<close>), in particular after a node has been appended to \<open>q\<close> and after
  a node has been removed from \<open>q\<close>; \<open>q\<close> may be any later table with the name \<open>X\<close>.
\<close>

theorem FindTableElement_first_match:
  assumes "q \<in> set (elementsByTagName (XmlDocument s) TABLE_ELEMENT_NAME)"
    and "attribute (deref (XmlDocument s) q) ''name'' = X"
  shows "\<exists>i < length (elementsByTagName (XmlDocument s) TABLE_ELEMENT_NAME).
           FindTableElement s X = Some (elementsByTagName (XmlDocument s) TABLE_ELEMENT_NAME ! i)
         \<and> attribute (deref (XmlDocument s)
               (elementsByTagName (XmlDocument s) TABLE_ELEMENT_NAME ! i)) ''name'' = X
         \<and> (\<forall>j < i. attribute (deref (XmlDocument s)
               (elementsByTagName (XmlDocument s) TABLE_ELEMENT_NAME ! j)) ''name'' \<noteq> X)
         \<and> (\<forall>h. FindTableElement
                    (s\<lparr>XmlDocument := map_option (update_children q h) (XmlDocument s)\<rparr>) X
                  = Some (elementsByTagName (XmlDocument s) TABLE_ELEMENT_NAME ! i))
         \<and> (\<forall>newChild. FindTableElement
                    (s\<lparr>XmlDocument := appendChild (XmlDocument s) q newChild\<rparr>) X
                  = Some (elementsByTagName (XmlDocument s) TABLE_ELEMENT_NAME ! i))
         \<and> (\<forall>oldChild. FindTableElement
                    (s\<lparr>XmlDocument := removeChild (XmlDocument s) q oldChild\<rparr>) X
                  = Some (elementsByTagName (XmlDocument s) TABLE_ELEMENT_NAME ! i))"
proof -
  let ?tables = "elementsByTagName (XmlDocument s) TABLE_ELEMENT_NAME"
  let ?P = "\<lambda>p. attribute (toElement (deref (XmlDocument s) p)) ''name'' = X"
  have Pq: "?P q" using assms by (simp add: toElement_member)
  then have "List.find ?P ?tables \<noteq> None"
    using assms(1) by (auto simp: find_None_iff)
  then obtain p where found: "FindTableElement s X = Some p"
    by (auto simp: FindTableElement_find)
  then obtain i where i: "i < length ?tables" and Pi: "?P (?tables ! i)"
    and p: "p = ?tables ! i" and before: "\<forall>j<i. \<not> ?P (?tables ! j)"
    unfolding FindTableElement_find find_Some_iff by blast
  have name_i: "attribute (deref (XmlDocument s) (?tables ! i)) ''name'' = X"
    using Pi by (simp add: toElement_member [OF nth_mem [OF i]])
  have names_before: "\<forall>j<i. attribute (deref (XmlDocument s) (?tables ! j)) ''name'' \<noteq> X"
  proof (intro allI impI)
    fix j assume "j < i"
    with before i have "\<not> ?P (?tables ! j)" "?tables ! j \<in> set ?tables" by auto
    then show "attribute (deref (XmlDocument s) (?tables ! j)) ''name'' \<noteq> X"
      by (simp add: toElement_member)
  qed
  have upd: "FindTableElement
               (s\<lparr>XmlDocument := map_option (update_children q h) (XmlDocument s)\<rparr>) X = Some p"
    for h by (rule FindTableElement_update [OF found assms])
  have app: "FindTableElement (s\<lparr>XmlDocument := appendChild (XmlDocument s) q newChild\<rparr>) X
               = Some p" for newChild
    unfolding appendChild_def by (rule upd)
  have rem: "FindTableElement (s\<lparr>XmlDocument := removeChild (XmlDocument s) q oldChild\<rparr>) X
               = Some p" for oldChild
  proof (cases "\<exists>k. oldChild = [k]")
    case True
    then obtain k where "oldChild = [k]" by blast
    then show ?thesis by (simp add: removeChild_def upd)
  next
    case False
    then have "removeChild (XmlDocument s) q oldChild = XmlDocument s"
      by (cases oldChild; cases "tl oldChild") (auto simp: removeChild_def)
    with found show ?thesis by simp
  qed
  show ?thesis
    using i found name_i names_before upd app rem unfolding p by blast
qed

text \<open>
  The theorem at the document \<open>people\<close>, in which the tables at \<open>[0]\<close> and \<open>[1]\<close> are both
  called \<open>People\<close>; a row is appended to the second one, and its row is removed.
\<close>

theorem FindTableElement_first_match_witness:
  "[1] \<in> set (elementsByTagName (XmlDocument people) TABLE_ELEMENT_NAME)
   \<and> attribute (deref (XmlDocument people) [1]) ''name'' = ''People''
   \<and> FindTableElement people ''People'' = Some [0]
   \<and> FindTableElement
        (people\<lparr>XmlDocument :=
            appendChild (XmlDocument people) [1] (CreateRowElement [''Eve''] [''Name''])\<rparr>)
        ''People'' = Some [0]
   \<and> FindTableElement
        (people\<lparr>XmlDocument := removeChild (XmlDocument people) [1] [0]\<rparr>) ''People'' = Some [0]"
proof -
  have q: "[1] \<in> set (elementsByTagName (XmlDocument people) TABLE_ELEMENT_NAME)"
    by (simp add: people_tables)
  have name: "attribute (deref (XmlDocument people) [1]) ''name'' = ''People''"
    by (simp add: example_simps)
  from FindTableElement_first_match [OF q name] obtain i where
    first: "FindTableElement people ''People''
              = Some (elementsByTagName (XmlDocument people) TABLE_ELEMENT_NAME ! i)"
    and app: "\<forall>newChild. FindTableElement
                (people\<lparr>XmlDocument := appendChild (XmlDocument people) [1] newChild\<rparr>) ''People''
              = Some (elementsByTagName (XmlDocument people) TABLE_ELEMENT_NAME ! i)"
    and rem: "\<forall>oldChild. FindTableElement
                (people\<lparr>XmlDocument := removeChild (XmlDocument people) [1] oldChild\<rparr>) ''People''
              = Some (elementsByTagName (XmlDocument people) TABLE_ELEMENT_NAME ! i)"
    by blast
  from first people_find
  have i: "elementsByTagName (XmlDocument people) TABLE_ELEMENT_NAME ! i = [0]" by simp
  show ?thesis
    using q name people_find app rem unfolding i by blast
qed

subsection \<open>Reading headers and rows\<close>

text \<open>
  Claim C5. For every table element, \<^verbatim>\<open>ExtractColumnHeaders\<close> takes the headers only from
  the cells of the first \<^verbatim>\<open>row\<close> element, in that row's order, and a cell without a
  \<^verbatim>\<open>name\<close> attribute (or with an empty one) gets \<open>Column_\<close> followed by its 1-based position;
  \<^verbatim>\<open>ExtractTableRows\<close> returns, for each row in document order, the texts of its cells in
  order. The table with rows \<open>[[a, b], [c]]\<close> and first-row cell names \<open>Col1\<close>, \<open>Col2\<close> gives
  the headers \<open>[Col1, Col2]\<close> and the second row \<open>[c]\<close>. Rows and cells are what
  \<^verbatim>\<open>elementsByTagName\<close> finds.
\<close>

theorem headers_from_first_row_and_rows_by_position:
  "ExtractColumnHeaders tableElement =
     (case elementsByTagName tableElement ROW_ELEMENT_NAME of
        [] \<Rightarrow> []
      | r # later \<Rightarrow>
          map (\<lambda>(i, c).
                 if attribute (deref (deref tableElement r) c) ''name'' = []
                 then ''Column_'' @ number (i + 1)
                 else attribute (deref (deref tableElement r) c) ''name'')
              (enumerate 0 (elementsByTagName (deref tableElement r) CELL_ELEMENT_NAME)))
   \<and> ExtractTableRows tableElement =
       map (\<lambda>r. map (\<lambda>c. text_of (deref (deref tableElement r) c))
                    (elementsByTagName (deref tableElement r) CELL_ELEMENT_NAME))
           (elementsByTagName tableElement ROW_ELEMENT_NAME)
   \<and> ExtractColumnHeaders (Some two_row_table) = [''Col1'', ''Col2'']
   \<and> ExtractTableRows (Some two_row_table) = [[''a'', ''b''], [''c'']]"
proof (intro conjI)
  show "ExtractColumnHeaders (Some two_row_table) = [''Col1'', ''Col2'']"
    by (simp add: ExtractColumnHeaders_eq two_row_table_def elementsByTagName_def deref_def
        ROW_ELEMENT_NAME_def CELL_ELEMENT_NAME_def attribute_def enumerate_eq_zip)
  show "ExtractTableRows (Some two_row_table) = [[''a'', ''b''], [''c'']]"
    by (simp add: ExtractTableRows_eq two_row_table_def elementsByTagName_def deref_def
        ROW_ELEMENT_NAME_def CELL_ELEMENT_NAME_def text_of_def)
qed (rule ExtractColumnHeaders_eq ExtractTableRows_eq)+

text \<open>The theorem at a table whose first cell has no name and whose second cell holds a text
  node and a CDATA section.\<close>

theorem headers_from_first_row_and_rows_by_position_witness:
  "ExtractColumnHeaders (Some unnamed_cell_table) = [''Column_1'', ''B'']
   \<and> ExtractTableRows (Some unnamed_cell_table) = [[''x'', ''yz'']]"
  using headers_from_first_row_and_rows_by_position [of "Some unnamed_cell_table"]
  by (simp add: unnamed_cell_table_def elementsByTagName_def deref_def
      ROW_ELEMENT_NAME_def CELL_ELEMENT_NAME_def attribute_def text_of_def enumerate_eq_zip)

subsection \<open>Replacing the rows of a table\<close>

text \<open>
  Claim C6 says that for every table \<^verbatim>\<open>UpdateCompleteTable\<close> removes the old rows and
  appends one new row per row of the grid. On a table with \<open>rows_direct\<close> it does
  (\<open>UpdateCompleteTable_found\<close>, \<open>UpdateCompleteTable_reads_as_grid\<close>;
  \<open>CreateRowElement_eq\<close> gives the cells of a new row: one per header, named by it, holding
  the value at that position or the empty string, values past the headers dropped). On any
  other table the call does not return: the loop asks for the
  first \<^verbatim>\<open>row\<close> element below the table, \<^verbatim>\<open>removeChild\<close> refuses it because it is not a
  child of the table, and the list is the same in the next round. The table \<open>Grouped\<close> of
  \<open>people\<close> is such a table.
\<close>

theorem UpdateCompleteTable_row_below_group_never_returns:
  "FindTableElement people ''Grouped'' = Some [3]
   \<and> elementsByTagName (deref (XmlDocument people) [3]) ROW_ELEMENT_NAME = [[0, 0]]
   \<and> removeChild (XmlDocument people) [3] [0, 0] = XmlDocument people
   \<and> UpdateCompleteTable people ''Grouped'' (Some example_grid) = None"
proof -
  have loaded: "FileLoaded people" by (simp add: people_def)
  have "UpdateCompleteTable people ''Grouped'' (Some example_grid) = None"
    unfolding UpdateCompleteTable_found [OF loaded _ grouped_find grouped_at, simplified]
    by (simp add: rows_direct_def elementsByTagName_def ROW_ELEMENT_NAME_def)
  then show ?thesis
    by (simp add: grouped_find grouped_rows removeChild_def)
qed

text \<open>
Read as a statement about results: the call has none.
\<close>

theorem UpdateCompleteTable_row_below_group_never_returns_witness:
  "\<not> (\<exists>result. UpdateCompleteTable people ''Grouped'' (Some example_grid) = Some result)"
  using UpdateCompleteTable_row_below_group_never_returns by simp

subsection \<open>Deleting a row\<close>

text \<open>
  Claim C7 says that deleting row 0 of a table with at least one row succeeds and reduces the
  row count by one. \<^verbatim>\<open>DeleteRowFromTable\<close> refuses a negative index and an index from the
  row count on (\<open>DeleteRowFromTable_out_of_range\<close>) and removes a row that is a child of
  the table (\<open>DeleteRowFromTable_child_row\<close>); on a table with \<open>rows_flat\<close> index 0 does
  all that the claim says (\<open>DeleteRowFromTable_first_row\<close>). For a row that lies deeper it reports
  success although \<^verbatim>\<open>removeChild\<close> has removed nothing: in the table \<open>Grouped\<close> of
  \<open>people\<close> the call for row 0 returns \<open>True\<close> and the worker is as before.
\<close>

theorem DeleteRowFromTable_row_below_group_reports_success:
  "elementsByTagName (deref (XmlDocument people) [3]) ROW_ELEMENT_NAME = [[0, 0]]
   \<and> DeleteRowFromTable people ''Grouped'' 0 = (True, people)"
proof -
  have loaded: "FileLoaded people" by (simp add: people_def)
  show ?thesis
    by (simp add: DeleteRowFromTable_def grouped_find grouped_rows removeChild_def loaded)
qed

text \<open>
Read through the result: the call reports success, and the table still has its row.
\<close>

theorem DeleteRowFromTable_row_below_group_reports_success_witness:
  "fst (DeleteRowFromTable people ''Grouped'' 0)
   \<and> length (elementsByTagName
        (deref (XmlDocument (snd (DeleteRowFromTable people ''Grouped'' 0))) [3])
        ROW_ELEMENT_NAME) = 1"
  using DeleteRowFromTable_row_below_group_reports_success by simp

subsection \<open>Replacing the rows twice\<close>

text \<open>
  Claim C8 says that for every table two calls of \<^verbatim>\<open>UpdateCompleteTable\<close> in succession
  with the same arguments leave the table in the same observable state as one call. On a
  table with \<open>rows_direct\<close> they do: both calls return, and the second leaves the worker as
  the first left it (\<open>UpdateCompleteTable_twice_on_direct_rows\<close>,
  \<open>UpdateCompleteTable_twice_is_once\<close>). On any other table there is no state after one call
  and none after two, because the first call does not return
  (\<open>UpdateCompleteTable_returns_iff\<close>), so the second is never made. The table \<open>Grouped\<close> of
  \<open>people\<close> is such a table: its only row is found below the \<^verbatim>\<open>group\<close> element, it is
  not a child of the table, and the first call has no result; neither has the sequence of
  the two calls, written out as the second call on the worker the first one returns.
\<close>

theorem UpdateCompleteTable_twice_below_group_has_no_result:
  "elementsByTagName (deref (XmlDocument people) [3]) ROW_ELEMENT_NAME = [[0, 0]]
   \<and> UpdateCompleteTable people ''Grouped'' (Some example_grid) = None
   \<and> (case UpdateCompleteTable people ''Grouped'' (Some example_grid) of
         None \<Rightarrow> None
       | Some first \<Rightarrow> UpdateCompleteTable (snd first) ''Grouped'' (Some example_grid)) = None"
proof -
  have loaded: "FileLoaded people" by (simp add: people_def)
  have "UpdateCompleteTable people ''Grouped'' (Some example_grid) = None"
    unfolding UpdateCompleteTable_found [OF loaded _ grouped_find grouped_at, simplified]
    by (simp add: rows_direct_def elementsByTagName_def ROW_ELEMENT_NAME_def)
  then show ?thesis
    by (simp add: grouped_rows)
qed

text \<open>Read as a statement about results: no first result is followed by a second one.\<close>

theorem UpdateCompleteTable_twice_below_group_has_no_result_witness:
  "\<not> (\<exists>first second.
          UpdateCompleteTable people ''Grouped'' (Some example_grid) = Some first
          \<and> UpdateCompleteTable (snd first) ''Grouped'' (Some example_grid) = Some second)"
  using UpdateCompleteTable_twice_below_group_has_no_result by simp

subsection \<open>A table name that is not in the document\<close>

text \<open>
  Claim C9. When no table element of the document has the given name, each of
  \<^verbatim>\<open>LoadTableData\<close>, \<^verbatim>\<open>AddRowToTable\<close>, \<^verbatim>\<open>DeleteRowFromTable\<close> and
  \<^verbatim>\<open>UpdateCompleteTable\<close> returns \<open>False\<close>, the worker (and with it the document) is as
  before, and so is the grid. This holds whether or not a file is loaded.
\<close>

theorem unknown_table_name_changes_nothing:
  assumes "\<forall>p \<in> set (elementsByTagName (XmlDocument s) TABLE_ELEMENT_NAME).
             attribute (deref (XmlDocument s) p) ''name'' \<noteq> tableName"
  shows "LoadTableData s tableName tableWidget = (False, tableWidget)
       \<and> AddRowToTable s tableName rowData = (False, s)
       \<and> DeleteRowFromTable s tableName rowIndex = (False, s)
       \<and> UpdateCompleteTable s tableName tableWidget = Some (False, s)"
proof -
  have "FindTableElement s tableName = None"
    by (rule FindTableElement_None [OF assms])
  then show ?thesis
    by (auto simp: LoadTableData_def AddRowToTable_def DeleteRowFromTable_def
        UpdateCompleteTable_def)
qed

text \<open>
The theorem at the loaded worker \<open>people\<close>, which has no table \<open>Pets\<close>.
\<close>

theorem unknown_table_name_changes_nothing_witness:
  "FileLoaded people
   \<and> ''Pets'' \<notin> set (map (\<lambda>p. attribute (deref (XmlDocument people) p) ''name'')
                          (elementsByTagName (XmlDocument people) TABLE_ELEMENT_NAME))
   \<and> LoadTableData people ''Pets'' (Some example_grid) = (False, Some example_grid)
   \<and> AddRowToTable people ''Pets'' [''Rex''] = (False, people)
   \<and> DeleteRowFromTable people ''Pets'' 0 = (False, people)
   \<and> UpdateCompleteTable people ''Pets'' (Some example_grid) = Some (False, people)"
proof -
  have none: "\<forall>p \<in> set (elementsByTagName (XmlDocument people) TABLE_ELEMENT_NAME).
         attribute (deref (XmlDocument people) p) ''name'' \<noteq> ''Pets''"
    by (simp add: example_simps)
  have names: "''Pets'' \<notin> set (map (\<lambda>p. attribute (deref (XmlDocument people) p) ''name'')
                          (elementsByTagName (XmlDocument people) TABLE_ELEMENT_NAME))"
    by (simp add: example_simps)
  have "FileLoaded people" by (simp add: people_def)
  with names unknown_table_name_changes_nothing [OF none] show ?thesis by blast
qed

subsection \<open>Adding a row to a table without rows\<close>

text \<open>
  Claim C10. For a loaded worker and a table below which \<^verbatim>\<open>elementsByTagName\<close> finds no
  \<^verbatim>\<open>row\<close>, \<^verbatim>\<open>AddRowToTable\<close> succeeds for every list of values and appends a
  \<^verbatim>\<open>row\<close> element without cells: the values are dropped, because the headers of the
  table are empty. Afterwards the same name finds the same table, the new row is its only
  row, and its headers are still empty.
\<close>

theorem AddRowToTable_without_rows:
  assumes "FileLoaded s" and "tableName \<noteq> []"
    and "FindTableElement s tableName = Some tableElement"
    and "elementsByTagName (deref (XmlDocument s) tableElement) ROW_ELEMENT_NAME = []"
  shows "AddRowToTable s tableName rowData =
           (True, s\<lparr>XmlDocument :=
                      appendChild (XmlDocument s) tableElement (Element ROW_ELEMENT_NAME [] [])\<rparr>)
       \<and> FindTableElement (snd (AddRowToTable s tableName rowData)) tableName = Some tableElement
       \<and> (\<exists>r. elementsByTagName
                 (deref (XmlDocument (snd (AddRowToTable s tableName rowData))) tableElement)
                 ROW_ELEMENT_NAME = [r]
              \<and> deref (deref (XmlDocument (snd (AddRowToTable s tableName rowData))) tableElement) r
                  = Some (Element ROW_ELEMENT_NAME [] []))
       \<and> ExtractColumnHeaders
            (deref (XmlDocument (snd (AddRowToTable s tableName rowData))) tableElement) = []"
proof -
  let ?row = "Element ROW_ELEMENT_NAME [] []"
  let ?s' = "s\<lparr>XmlDocument := appendChild (XmlDocument s) tableElement ?row\<rparr>"
  from FindTableElement_SomeD [OF assms(3)] obtain a cs where
    mem: "tableElement \<in> set (elementsByTagName (XmlDocument s) TABLE_ELEMENT_NAME)"
    and name: "attribute (deref (XmlDocument s) tableElement) ''name'' = tableName"
    and at: "deref (XmlDocument s) tableElement = Some (Element TABLE_ELEMENT_NAME a cs)"
    by blast
  from at obtain root where root: "XmlDocument s = Some root"
    and nat: "node_at root tableElement = Some (Element TABLE_ELEMENT_NAME a cs)"
    by (rule deref_SomeE)
  have headers: "ExtractColumnHeaders (deref (XmlDocument s) tableElement) = []"
    using assms(4) by (simp add: ExtractColumnHeaders_def)
  have add: "AddRowToTable s tableName rowData = (True, ?s')"
    using assms(1-3) headers by (simp add: AddRowToTable_def CreateRowElement_eq)
  let ?d' = "appendChild (XmlDocument s) tableElement ?row"
  have found': "FindTableElement ?s' tableName = Some tableElement"
    unfolding appendChild_def by (rule FindTableElement_update [OF assms(3) mem name])
  have at': "deref ?d' tableElement = Some (Element TABLE_ELEMENT_NAME a (cs @ [?row]))"
    by (simp add: appendChild_def root deref_def update_children_at [OF nat])
  have rows': "elementsByTagName (deref ?d' tableElement) ROW_ELEMENT_NAME = [[length cs]]"
    using assms(4) unfolding at' at by (simp add: elementsByTagName_appended)
  have row': "deref (deref ?d' tableElement) [length cs] = Some ?row"
    unfolding at' by (simp add: deref_def)
  have headers': "ExtractColumnHeaders (deref ?d' tableElement) = []"
    unfolding ExtractColumnHeaders_eq rows' by (simp add: row' elementsByTagName_def)
  show ?thesis
    unfolding add using found' rows' row' headers' by simp
qed

text \<open>
The theorem at the table \<open>Empty\<close> of \<open>people\<close> and the values \<open>[Eve, 22]\<close>.
\<close>

theorem AddRowToTable_without_rows_witness:
  "FileLoaded people \<and> ''Empty'' \<noteq> []
   \<and> FindTableElement people ''Empty'' = Some [2]
   \<and> elementsByTagName (deref (XmlDocument people) [2]) ROW_ELEMENT_NAME = []
   \<and> fst (AddRowToTable people ''Empty'' [''Eve'', ''22''])
   \<and> deref (XmlDocument (snd (AddRowToTable people ''Empty'' [''Eve'', ''22'']))) [2]
        = Some (Element ''table'' [(''name'', ''Empty'')] [Element ''row'' [] []])
   \<and> ExtractColumnHeaders
        (deref (XmlDocument (snd (AddRowToTable people ''Empty'' [''Eve'', ''22'']))) [2]) = []"
proof -
  have loaded: "FileLoaded people" by (simp add: people_def)
  have name: "''Empty'' \<noteq> []" by simp
  have found: "FindTableElement people ''Empty'' = Some [2]"
    by (simp add: FindTableElement_first_named people_def people_document_def attribute_def
        TABLE_ELEMENT_NAME_def)
  have norows: "elementsByTagName (deref (XmlDocument people) [2]) ROW_ELEMENT_NAME = []"
    by (simp add: example_simps)
  note inst = AddRowToTable_without_rows [OF loaded name found norows, of "[''Eve'', ''22'']"]
  from inst have add: "AddRowToTable people ''Empty'' [''Eve'', ''22''] =
      (True, people\<lparr>XmlDocument :=
                appendChild (XmlDocument people) [2] (Element ROW_ELEMENT_NAME [] [])\<rparr>)"
    by (rule conjunct1)
  from inst have headers: "ExtractColumnHeaders
        (deref (XmlDocument (snd (AddRowToTable people ''Empty'' [''Eve'', ''22'']))) [2]) = []"
    by blast
  have doc: "deref (XmlDocument (snd (AddRowToTable people ''Empty'' [''Eve'', ''22'']))) [2]
        = Some (Element ''table'' [(''name'', ''Empty'')] [Element ''row'' [] []])"
    unfolding add by (simp add: appendChild_def people_def people_document_def deref_def
        ROW_ELEMENT_NAME_def)
  show ?thesis
    using loaded found norows headers doc by (simp add: add)
qed

end
